theory Spec2Isabelle
  imports Main "HOL-Library.Sublist"
begin

section \<open>The terminal bot: data model\<close>

text \<open>
  A shallow embedding of \<^verbatim>\<open>src/terminal-docker-bot.py\<close> (class \<^verbatim>\<open>TerminalBot\<close>).
  The bot keeps its durable data in Redis (keys \<^verbatim>\<open>session:<user>\<close>, \<^verbatim>\<open>tokens:<user>\<close> and the
  set \<^verbatim>\<open>confirmed_users\<close>), drives Docker containers, and holds three dictionaries and a
  thread pool in memory. All of it is one record, passed explicitly.

  User ids are Python integers. A session is the JSON object written by
  \<^verbatim>\<open>create_user_container\<close>; only that function writes it, so it is modelled by its fields
  (the field \<^verbatim>\<open>created_at\<close>, a wall-clock stamp nothing reads back but the menus, is left out).
  A token balance is stored as the decimal text of an integer and read back with
  \<^verbatim>\<open>int\<close>, so it is modelled as the integer.
\<close>

record session =
  container_id :: string
  image :: string
  shell :: string
  ttl_seconds :: "int option"
  ttl_display :: string
  config_name :: string
  network :: bool
  is_confirmed :: bool
  is_test :: bool

text \<open>
  A container as Docker knows it. \<open>c_owner\<close> is the user id that
  \<^verbatim>\<open>create_user_container\<close> writes into the container name
  (\<^verbatim>\<open>terminal_bot_<user>_<hex>\<close>); the limits are the keyword arguments of
  \<^verbatim>\<open>containers.run\<close>.
\<close>

datatype cstatus = Running | Exited

record container =
  c_status :: cstatus
  c_owner :: int
  c_image :: string
  c_network_mode :: string
  c_mem_limit :: string
  c_cpu_period :: int
  c_cpu_quota :: int
  c_pids_limit :: int

text \<open>The mutating calls on the Docker client that Docker carried out, in their order.\<close>

datatype docker_call = Stop string | Remove string | Run string

text \<open>
  What the Docker daemon will answer to one \<^verbatim>\<open>exec_run\<close>: the executor future resolves
  after so many seconds with an output and an exit code, or it never resolves.
\<close>

datatype reply = Reply nat string int | NoReply

text \<open>
  A queue entry is the tuple \<^verbatim>\<open>(update, context, command, status_msg)\<close>; the worker uses the
  status message (here its number) and the command text.
\<close>

type_synonym entry = "nat \<times> string"

text \<open>
  What the bot writes into a status message. \<open>Sent\<close> is the call of
  \<^verbatim>\<open>send_smart_output\<close> with the text to show and the exit code; the text is the output
  of the command, or one of two fixed sentences (Russian in the source) when the output is
  empty.
\<close>

datatype shown = Output string | FailedWithCode int | NoOutput

datatype notice =
    InQueue nat
  | SessionNotFound
  | ContainerIdMissing
  | ContainerNotFound
  | CommandForbidden
  | CommandTimeout nat
  | Sent shown int

text \<open>
  A call handed to the thread pool by \<^verbatim>\<open>run_in_executor\<close>: \<^verbatim>\<open>_run_command_sync(container,
  full_command)\<close>. \<open>j_abandoned\<close> records that the coroutine that awaited the call has
  stopped awaiting it (a timeout or a cancellation); the thread itself cannot be interrupted.
\<close>

record job =
  j_id :: nat
  j_user :: int
  j_entry :: entry
  j_cid :: string
  j_cmd :: string
  j_test :: bool
  j_reply :: reply
  j_abandoned :: bool

text \<open>
  The asyncio task of \<^verbatim>\<open>start_command_worker\<close>: created but not yet run, suspended in
  \<^verbatim>\<open>queue.get()\<close>, suspended in the executor call of one command, or finished.
\<close>

datatype task = Created | Waiting | Busy job | Finished

record bot =
  confirmed_users :: "int set"
  tokens :: "int \<rightharpoonup> int"
  sessions :: "int \<rightharpoonup> session"
  containers :: "string \<rightharpoonup> container"
  docker_log :: "docker_call list"
  command_queues :: "int \<rightharpoonup> entry list"
  command_workers :: "int \<rightharpoonup> task"
  active_commands :: "int set"
  thread_pool :: "job list"
  next_job :: nat
  next_msg :: nat
  chat :: "(int \<times> entry \<times> notice) list"

datatype error =
    KeyError string
  | DockerError string
  | ResponseError string
  | AttributeError string

section \<open>Confirmed users and the token ledger\<close>

definition initial_tokens :: int where
  "initial_tokens = 480"

definition is_confirmed_user :: "int \<Rightarrow> bot \<Rightarrow> bool" where
  "is_confirmed_user u s = (u \<in> confirmed_users s)"

definition has_active_session :: "int \<Rightarrow> bot \<Rightarrow> bool" where
  "has_active_session u s = (sessions s u \<noteq> None)"

definition init_user_tokens :: "int \<Rightarrow> bot \<Rightarrow> bot" where
  "init_user_tokens u s =
     (if tokens s u = None then s\<lparr>tokens := (tokens s)(u \<mapsto> initial_tokens)\<rparr> else s)"

definition get_user_tokens :: "int \<Rightarrow> bot \<Rightarrow> int" where
  "get_user_tokens u s = (case tokens s u of None \<Rightarrow> 0 | Some n \<Rightarrow> n)"

definition consume_tokens :: "int \<Rightarrow> int \<Rightarrow> bot \<Rightarrow> bool \<times> bot" where
  "consume_tokens u minutes s =
     (if is_confirmed_user u s then (True, s)
      else let current_tokens = get_user_tokens u s in
        if current_tokens \<le> 0 then (False, s)
        else (True, s\<lparr>tokens := (tokens s)(u \<mapsto> max 0 (current_tokens - minutes))\<rparr>))"

definition add_tokens :: "int \<Rightarrow> int \<Rightarrow> bot \<Rightarrow> bot" where
  "add_tokens u amount s = s\<lparr>tokens := (tokens s)(u \<mapsto> get_user_tokens u s + amount)\<rparr>"

text \<open>
  \<open>n\<close> successive calls \<^verbatim>\<open>consume_tokens(user, 1)\<close>: the results, oldest first, and the
  state after the last call.
\<close>

fun consume_times :: "int \<Rightarrow> nat \<Rightarrow> bot \<Rightarrow> bool list \<times> bot" where
  "consume_times u 0 s = ([], s)"
| "consume_times u (Suc n) s =
     (case consume_tokens u 1 s of (ok, s') \<Rightarrow>
        (case consume_times u n s' of (oks, s'') \<Rightarrow> (ok # oks, s'')))"

section \<open>The resource catalogue\<close>

text \<open>
  \<^verbatim>\<open>self.resource_configs\<close> and \<^verbatim>\<open>self.test_config\<close>. The display names are Cyrillic in the
  source and are written here in Latin transliteration; nothing branches on them.
\<close>

record config =
  cfg_name :: string
  cfg_cpu_period :: int
  cfg_cpu_quota :: int
  cfg_mem_limit :: string
  cfg_pids_limit :: int
  cfg_description :: string

definition resource_configs :: "string \<rightharpoonup> config" where
  "resource_configs k =
     (if k = ''minimal'' then
        Some \<lparr>cfg_name = ''Bazovaya'', cfg_cpu_period = 100000, cfg_cpu_quota = 30000,
              cfg_mem_limit = ''246m'', cfg_pids_limit = 25,
              cfg_description = ''246MB RAM, 30% CPU''\<rparr>
      else if k = ''medium'' then
        Some \<lparr>cfg_name = ''Srednyaya'', cfg_cpu_period = 100000, cfg_cpu_quota = 50000,
              cfg_mem_limit = ''246m'', cfg_pids_limit = 50,
              cfg_description = ''270MB RAM, 50% CPU''\<rparr>
      else if k = ''enhanced'' then
        Some \<lparr>cfg_name = ''Uluchshennaya'', cfg_cpu_period = 100000, cfg_cpu_quota = 75000,
              cfg_mem_limit = ''428m'', cfg_pids_limit = 100,
              cfg_description = ''428MB RAM, 75% CPU''\<rparr>
      else if k = ''maximum'' then
        Some \<lparr>cfg_name = ''Maksimalnaya'', cfg_cpu_period = 100000, cfg_cpu_quota = 100000,
              cfg_mem_limit = ''612m'', cfg_pids_limit = 200,
              cfg_description = ''512MB RAM, 100% CPU''\<rparr>
      else None)"

record test_configuration =
  tc_image :: string
  tc_shell :: string
  tc_mem_limit :: string
  tc_cpu_quota :: int
  tc_cpu_period :: int
  tc_pids_limit :: int
  tc_timeout :: nat
  tc_max_session_time :: int
  tc_no_background :: bool

definition test_config :: test_configuration where
  "test_config =
     \<lparr>tc_image = ''alpine:latest'', tc_shell = ''sh'', tc_mem_limit = ''50m'',
      tc_cpu_quota = 25000, tc_cpu_period = 100000, tc_pids_limit = 10, tc_timeout = 80,
      tc_max_session_time = 1200, tc_no_background = True\<rparr>"

text \<open>\<^verbatim>\<open>ThreadPoolExecutor(max_workers=10)\<close>.\<close>

definition max_workers :: nat where
  "max_workers = 10"

section \<open>The session manager\<close>

text \<open>
  Docker is modelled as the map of the containers that exist. \<^verbatim>\<open>containers.get\<close> raises
  \<^verbatim>\<open>NotFound\<close> for an id outside the map; \<^verbatim>\<open>stop\<close> and \<^verbatim>\<open>remove\<close> on a container that
  exists succeed. \<open>docker_log\<close> lists the mutating calls Docker carried out.

  \<open>stop_and_remove\<close> is the block both \<^verbatim>\<open>create_user_container\<close> (lines 1424-1433) and
  \<^verbatim>\<open>stop_session\<close> (lines 975-983) run on a stored container id: get the container, stop
  it, remove it, and swallow any exception.
\<close>

definition stop_and_remove :: "string \<Rightarrow> bot \<Rightarrow> bot" where
  "stop_and_remove cid s =
     (case containers s cid of
        None \<Rightarrow> s
      | Some c \<Rightarrow>
          s\<lparr>containers := (containers s)(cid := None),
            docker_log := docker_log s @ [Stop cid, Remove cid]\<rparr>)"

definition remove_container_of_session :: "int \<Rightarrow> bot \<Rightarrow> bot" where
  "remove_container_of_session u s =
     (case sessions s u of
        None \<Rightarrow> s
      | Some r \<Rightarrow> if container_id r = [] then s else stop_and_remove (container_id r) s)"

definition redis_delete_session :: "int \<Rightarrow> bot \<Rightarrow> bot" where
  "redis_delete_session u s =
     s\<lparr>sessions := (sessions s)(u := None)\<rparr>"

text \<open>
  The answer of the Docker daemon to \<^verbatim>\<open>containers.run\<close>: the id of the started container,
  or an error (an image that cannot be pulled, a daemon that is down).
\<close>

datatype run_reply = Started string | RunError string

text \<open>
  \<^verbatim>\<open>create_user_container\<close> (lines 1413-1505). The record is stored with \<^verbatim>\<open>setex\<close> when
  \<^verbatim>\<open>ttl_seconds\<close> is a non-zero number (Redis refuses a negative one) and with \<^verbatim>\<open>set\<close>
  otherwise; the model has no clock, so a stored record stays until it is deleted, and
  the expiry it was stored with is its field \<open>ttl_seconds\<close>. Its last step calls
  \<^verbatim>\<open>self.start_token_consumption\<close>, an attribute the class does not define: the only
  token worker in the file, \<^verbatim>\<open>_token_consumption_worker\<close>, is a function nested in the body
  of \<^verbatim>\<open>add_tokens\<close> and nothing refers to it. The call therefore raises
  \<^verbatim>\<open>AttributeError\<close>, after the container has been started and the session stored.
\<close>

definition selected_config :: "string \<Rightarrow> bool \<Rightarrow> config option" where
  "selected_config config_key test =
     (if test then
        Some \<lparr>cfg_name = ''Testovaya'', cfg_cpu_period = tc_cpu_period test_config,
              cfg_cpu_quota = tc_cpu_quota test_config,
              cfg_mem_limit = tc_mem_limit test_config,
              cfg_pids_limit = tc_pids_limit test_config,
              cfg_description = ''50MB RAM, 25% CPU''\<rparr>
      else resource_configs config_key)"

definition container_kwargs :: "int \<Rightarrow> string \<Rightarrow> bool \<Rightarrow> config \<Rightarrow> bool \<Rightarrow> container" where
  "container_kwargs u img net cfg capped =
     \<lparr>c_status = Running, c_owner = u, c_image = img,
      c_network_mode = (if net then ''bridge'' else ''none''),
      c_mem_limit = (if capped then ''64m'' else cfg_mem_limit cfg),
      c_cpu_period = cfg_cpu_period cfg,
      c_cpu_quota = cfg_cpu_quota cfg,
      c_pids_limit = (if capped then 20 else cfg_pids_limit cfg)\<rparr>"

definition session_data ::
  "string \<Rightarrow> string \<Rightarrow> string \<Rightarrow> int option \<Rightarrow> string \<Rightarrow> config \<Rightarrow> bool \<Rightarrow> bool \<Rightarrow> bool \<Rightarrow> session" where
  "session_data cid img sh ttl ttl_disp cfg net conf test =
     \<lparr>container_id = cid, image = img, shell = sh, ttl_seconds = ttl,
      ttl_display = ttl_disp, config_name = cfg_name cfg, network = net,
      is_confirmed = conf, is_test = test\<rparr>"

definition create_user_container ::
  "int \<Rightarrow> string \<Rightarrow> string \<Rightarrow> int option \<Rightarrow> string \<Rightarrow> string \<Rightarrow> bool \<Rightarrow> bool \<Rightarrow> run_reply \<Rightarrow> bot
   \<Rightarrow> (error + string) \<times> bot" where
  "create_user_container u img sh ttl ttl_disp config_key net test dr s =
     (let s1 = remove_container_of_session u s in
      case selected_config config_key test of
        None \<Rightarrow> (Inl (KeyError config_key), s1)
      | Some cfg \<Rightarrow>
          (case dr of
             RunError m \<Rightarrow> (Inl (DockerError m), s1)
           | Started cid \<Rightarrow>
               (let c = container_kwargs u img net cfg (\<not> is_confirmed_user u s1 \<and> \<not> test);
                    s2 = s1\<lparr>containers := (containers s1)(cid \<mapsto> c),
                            docker_log := docker_log s1 @ [Run cid]\<rparr>;
                    r = session_data cid img sh ttl ttl_disp cfg net
                          (is_confirmed_user u s2) test;
                    s3 = s2\<lparr>sessions := (sessions s2)(u \<mapsto> r)\<rparr>
                in if (case ttl of None \<Rightarrow> False | Some t \<Rightarrow> t < 0)
                   then (Inl (ResponseError ''invalid expire time''), s2)
                   else if \<not> test \<and> \<not> is_confirmed_user u s3
                   then (Inl (AttributeError ''start_token_consumption''), s3)
                   else (Inr cid, s3))))"

text \<open>
  \<^verbatim>\<open>task.cancel()\<close> on a worker suspended in an executor call ends the task; the call
  itself goes on in its thread, awaited by nobody.
\<close>

definition abandon :: "nat \<Rightarrow> job list \<Rightarrow> job list" where
  "abandon i pool = map (\<lambda>k. if j_id k = i then k\<lparr>j_abandoned := True\<rparr> else k) pool"

definition cancel_user_commands :: "int \<Rightarrow> bot \<Rightarrow> bot" where
  "cancel_user_commands u s =
     (let s1 = (case command_workers s u of
                  None \<Rightarrow> s
                | Some w \<Rightarrow>
                    s\<lparr>command_workers := (command_workers s)(u := None),
                      thread_pool := (case w of Busy j \<Rightarrow> abandon (j_id j) (thread_pool s)
                                      | _ \<Rightarrow> thread_pool s)\<rparr>);
          s2 = (case command_queues s1 u of
                  None \<Rightarrow> s1
                | Some q \<Rightarrow> s1\<lparr>command_queues := (command_queues s1)(u := None)\<rparr>)
      in if u \<in> active_commands s2
         then s2\<lparr>active_commands := active_commands s2 - {u}\<rparr> else s2)"

text \<open>
  \<^verbatim>\<open>stop_session\<close> (lines 959-999). Every exception of the teardown is caught inside it, so
  it has no error result; the menu it draws afterwards is not modelled.
\<close>

definition stop_session :: "int \<Rightarrow> bot \<Rightarrow> bot" where
  "stop_session u s =
     redis_delete_session u (remove_container_of_session u (cancel_user_commands u s))"

text \<open>
  \<^verbatim>\<open>cleanup_old_sessions\<close> (lines 160-187). \<open>keys\<close> is the answer of
  \<^verbatim>\<open>redis.keys("session:*")\<close>, as user ids; the loop body is \<open>check_session\<close>.
\<close>

definition check_session :: "int \<Rightarrow> bot \<Rightarrow> bot" where
  "check_session u s =
     (case sessions s u of
        None \<Rightarrow> s
      | Some r \<Rightarrow>
          if container_id r = [] then s
          else (case containers s (container_id r) of
                  None \<Rightarrow> redis_delete_session u s
                | Some c \<Rightarrow> if c_status c \<noteq> Running then redis_delete_session u s else s))"

fun cleanup_old_sessions :: "int list \<Rightarrow> bot \<Rightarrow> bot" where
  "cleanup_old_sessions [] s = s"
| "cleanup_old_sessions (u # keys) s = cleanup_old_sessions keys (check_session u s)"

text \<open>
  \<^verbatim>\<open>cleanup_old_containers\<close> (lines 190-207), which \<^verbatim>\<open>__init__\<close> runs before
  \<^verbatim>\<open>cleanup_old_sessions\<close>. \<open>cids\<close> is the answer of \<^verbatim>\<open>containers.list\<close> for the name filter
  \<^verbatim>\<open>terminal_bot_\<close>: the containers the bot created.
\<close>

fun cleanup_old_containers :: "string list \<Rightarrow> bot \<Rightarrow> bot" where
  "cleanup_old_containers [] s = s"
| "cleanup_old_containers (cid # cids) s = cleanup_old_containers cids (stop_and_remove cid s)"

section \<open>Running one command\<close>

text \<open>
  \<^verbatim>\<open>str.lower\<close> character by character, on the code points below 256 (the type of
  characters here): the ASCII capitals (65 to 90) and the Latin-1 capitals (192 to 222)
  other than the multiplication sign (215) move up by 32. In all of them bit 5, which is
  worth 32, is clear, so moving up by 32 is setting that bit.
\<close>

definition lower_char :: "char \<Rightarrow> char" where
  "lower_char c =
     (let n = of_char c :: nat in
      if (65 \<le> n \<and> n \<le> 90) \<or> (192 \<le> n \<and> n \<le> 222 \<and> n \<noteq> 215)
      then (case c of Char b0 b1 b2 b3 b4 b5 b6 b7 \<Rightarrow> Char b0 b1 b2 b3 b4 True b6 b7)
      else c)"

definition lower :: "string \<Rightarrow> string" where
  "lower cs = map lower_char cs"

text \<open>\<^verbatim>\<open>pattern in text\<close>: the pattern starts at some position of the text.\<close>

fun starts_with :: "string \<Rightarrow> string \<Rightarrow> bool" where
  "starts_with [] cs = True"
| "starts_with (p # ps) [] = False"
| "starts_with (p # ps) (c # cs) = (p = c \<and> starts_with ps cs)"

fun contains :: "string \<Rightarrow> string \<Rightarrow> bool" where
  "contains p [] = (p = [])"
| "contains p (c # cs) = (starts_with p (c # cs) \<or> contains p cs)"

definition dangerous_patterns :: "string list" where
  "dangerous_patterns =
     [''rm -rf /'', ''rm -rf /*'', ''dd if='', ''mkfs'', '':(){:|:&};:'',
      ''> /dev/sd'', ''> /dev/hd'', ''chmod 777 /'', ''passwd root'']"

definition is_command_dangerous :: "string \<Rightarrow> bool" where
  "is_command_dangerous command =
     list_ex (\<lambda>pattern. contains pattern (lower command)) dangerous_patterns"

definition edit_text :: "int \<Rightarrow> entry \<Rightarrow> notice \<Rightarrow> bot \<Rightarrow> bot" where
  "edit_text u e n s = s\<lparr>chat := chat s @ [(u, e, n)]\<rparr>"

text \<open>
  \<^verbatim>\<open>_execute_single_command\<close>, lines 1510-1540: everything before the executor call. The
  result is the notice of an early return, or the container, the full command and the
  session's \<^verbatim>\<open>is_test\<close> flag.
\<close>

definition full_command :: "string \<Rightarrow> string \<Rightarrow> string" where
  "full_command sh command = sh @ '' -c '' @ [CHR 0x22] @ command @ [CHR 0x22]"

definition begin_single_command ::
  "int \<Rightarrow> string \<Rightarrow> bot \<Rightarrow> (notice + string \<times> string \<times> bool) \<times> bot" where
  "begin_single_command u command s =
     (case sessions s u of
        None \<Rightarrow> (Inl SessionNotFound, s)
      | Some r \<Rightarrow>
          if container_id r = [] then (Inl ContainerIdMissing, s)
          else (case containers s (container_id r) of
                  None \<Rightarrow> (Inl ContainerNotFound, redis_delete_session u s)
                | Some c \<Rightarrow>
                    if \<not> is_confirmed_user u s \<and> is_command_dangerous command
                    then (Inl CommandForbidden, s)
                    else (Inr (container_id r, full_command (shell r) command, is_test r), s)))"

text \<open>
  Lines 1545-1574: how the await of the executor call ends. In a test session
  \<^verbatim>\<open>asyncio.wait_for\<close> gives up when the call has not returned after
  \<^verbatim>\<open>test_config["timeout"]\<close> seconds; otherwise the call is awaited for as long as it takes,
  and \<open>None\<close> says that the await never ends.
\<close>

definition render_output :: "string \<Rightarrow> int \<Rightarrow> shown" where
  "render_output out code =
     (if code \<noteq> 0 \<and> out = [] then FailedWithCode code
      else if out = [] then NoOutput
      else Output out)"

definition wait_result :: "bool \<Rightarrow> reply \<Rightarrow> notice option" where
  "wait_result test rp =
     (case rp of
        NoReply \<Rightarrow> if test then Some (CommandTimeout (tc_timeout test_config)) else None
      | Reply d out code \<Rightarrow>
          if test \<and> tc_timeout test_config < d
          then Some (CommandTimeout (tc_timeout test_config))
          else Some (Sent (render_output out code) code))"

text \<open>
  The thread pool runs its ten oldest calls; a later call waits for a free thread and
  cannot return before it has one.
\<close>

definition running_jobs :: "bot \<Rightarrow> job list" where
  "running_jobs s = take max_workers (thread_pool s)"

definition is_timeout :: "notice \<Rightarrow> bool" where
  "is_timeout n = (case n of CommandTimeout t \<Rightarrow> True | _ \<Rightarrow> False)"

text \<open>
  \<open>launch\<close> runs \<^verbatim>\<open>_execute_single_command\<close> up to its suspension in the executor call
  (or to an early return), \<open>settle\<close> runs it from the resumption to the end.
  \<open>execute_single_command\<close> is the whole function; \<open>None\<close> means that it never returns.
\<close>

definition new_job :: "int \<Rightarrow> entry \<Rightarrow> string \<times> string \<times> bool \<Rightarrow> reply \<Rightarrow> bot \<Rightarrow> job" where
  "new_job u e l rp s =
     (case l of (cid, cmd, test) \<Rightarrow>
        \<lparr>j_id = next_job s, j_user = u, j_entry = e, j_cid = cid, j_cmd = cmd,
         j_test = test, j_reply = rp, j_abandoned = False\<rparr>)"

definition launch :: "int \<Rightarrow> entry \<Rightarrow> reply \<Rightarrow> bot \<Rightarrow> job option \<times> bot" where
  "launch u e rp s =
     (case begin_single_command u (snd e) s of
        (Inl n, s1) \<Rightarrow> (None, edit_text u e n s1)
      | (Inr l, s1) \<Rightarrow>
          (Some (new_job u e l rp s1),
           s1\<lparr>thread_pool := thread_pool s1 @ [new_job u e l rp s1],
              next_job := Suc (next_job s1)\<rparr>))"

definition settle :: "int \<Rightarrow> job \<Rightarrow> bot \<Rightarrow> bot option" where
  "settle u j s =
     (case wait_result (j_test j)
             (if list_ex (\<lambda>k. j_id k = j_id j) (running_jobs s) then j_reply j else NoReply) of
        None \<Rightarrow> None
      | Some n \<Rightarrow>
          Some (edit_text u (j_entry j) n
                  (s\<lparr>thread_pool :=
                       (if is_timeout n then abandon (j_id j) (thread_pool s)
                        else filter (\<lambda>k. j_id k \<noteq> j_id j) (thread_pool s))\<rparr>)))"

definition execute_single_command :: "int \<Rightarrow> entry \<Rightarrow> reply \<Rightarrow> bot \<Rightarrow> bot option" where
  "execute_single_command u e rp s =
     (case launch u e rp s of
        (None, s1) \<Rightarrow> Some s1
      | (Some j, s1) \<Rightarrow> settle u j s1)"

text \<open>The job \<open>launch\<close> creates for a session \<open>r\<close> that passes the checks.\<close>

definition job_of :: "int \<Rightarrow> entry \<Rightarrow> session \<Rightarrow> reply \<Rightarrow> bot \<Rightarrow> job" where
  "job_of u e r rp s =
     new_job u e (container_id r, full_command (shell r) (snd e), is_test r) rp s"


section \<open>The command queue and its worker\<close>

text \<open>\<^verbatim>\<open>str.strip\<close> on the code points below 256.\<close>

definition is_space :: "char \<Rightarrow> bool" where
  "is_space c =
     (let n = of_char c :: nat in
      (9 \<le> n \<and> n \<le> 13) \<or> (28 \<le> n \<and> n \<le> 32) \<or> n = 133 \<or> n = 160)"

definition strip :: "string \<Rightarrow> string" where
  "strip cs = rev (dropWhile is_space (rev (dropWhile is_space cs)))"

definition start_command_worker :: "int \<Rightarrow> bot \<Rightarrow> bot" where
  "start_command_worker u s =
     (if command_workers s u \<noteq> None then s
      else s\<lparr>command_workers := (command_workers s)(u \<mapsto> Created)\<rparr>)"

text \<open>
  \<^verbatim>\<open>execute_command\<close> (lines 1603-1631); the result is the queue position it reports, or
  \<open>None\<close> when the user has no session. Its two awaits send messages and let worker tasks
  run; no worker writes the two dictionaries, so the handler is modelled as one step.
\<close>

definition execute_command :: "int \<Rightarrow> string \<Rightarrow> bot \<Rightarrow> nat option \<times> bot" where
  "execute_command u text s =
     (if \<not> has_active_session u s then (None, s)
      else
        (let s1 = (if command_workers s u = None then start_command_worker u s else s);
             s2 = (if command_queues s1 u = None
                   then s1\<lparr>command_queues := (command_queues s1)(u \<mapsto> [])\<rparr> else s1);
             e = (next_msg s2, strip text);
             q = (case command_queues s2 u of None \<Rightarrow> [] | Some q \<Rightarrow> q) @ [e]
         in (Some (length q),
             s2\<lparr>command_queues := (command_queues s2)(u \<mapsto> q),
                next_msg := Suc (next_msg s2),
                chat := chat s2 @ [(u, e, InQueue (length q))]\<rparr>)))"

text \<open>
  The task of \<^verbatim>\<open>start_command_worker\<close> (lines 689-718), one definition for each stretch
  between two suspensions:
  \<^item> \<open>worker_start\<close>: the first run, which looks the queue up and returns when there is
    none;
  \<^item> \<open>worker_take\<close>: \<^verbatim>\<open>queue.get()\<close> returns an entry and \<^verbatim>\<open>_execute_single_command\<close> runs
    up to its executor call;
  \<^item> \<open>worker_resume\<close>: the executor call is over (or timed out), the result is sent,
    \<^verbatim>\<open>task_done\<close>, and back to \<^verbatim>\<open>queue.get()\<close>;
  \<^item> \<open>worker_idle\<close>: \<^verbatim>\<open>queue.get()\<close> times out after 300 seconds on an empty queue and the
    loop breaks. Nothing is deleted from \<^verbatim>\<open>command_workers\<close> or \<^verbatim>\<open>command_queues\<close>.
\<close>

definition worker_start :: "int \<Rightarrow> bot \<Rightarrow> bot" where
  "worker_start u s =
     (case command_workers s u of
        Some Created \<Rightarrow>
          s\<lparr>command_workers :=
              (command_workers s)(u \<mapsto> (if command_queues s u = None then Finished else Waiting))\<rparr>
      | _ \<Rightarrow> s)"

definition worker_take :: "int \<Rightarrow> reply \<Rightarrow> bot \<Rightarrow> bot" where
  "worker_take u rp s =
     (case command_workers s u of
        Some Waiting \<Rightarrow>
          (case command_queues s u of
             Some (e # rest) \<Rightarrow>
               (case launch u e rp (s\<lparr>command_queues := (command_queues s)(u \<mapsto> rest)\<rparr>) of
                  (None, s1) \<Rightarrow> s1
                | (Some j, s1) \<Rightarrow>
                    s1\<lparr>command_workers := (command_workers s1)(u \<mapsto> Busy j)\<rparr>)
           | _ \<Rightarrow> s)
      | _ \<Rightarrow> s)"

definition worker_resume :: "int \<Rightarrow> bot \<Rightarrow> bot" where
  "worker_resume u s =
     (case command_workers s u of
        Some (Busy j) \<Rightarrow>
          (case settle u j s of
             None \<Rightarrow> s
           | Some s1 \<Rightarrow> s1\<lparr>command_workers := (command_workers s1)(u \<mapsto> Waiting)\<rparr>)
      | _ \<Rightarrow> s)"

definition worker_idle :: "int \<Rightarrow> bot \<Rightarrow> bot" where
  "worker_idle u s =
     (case command_workers s u of
        Some Waiting \<Rightarrow>
          (case command_queues s u of
             Some [] \<Rightarrow> s\<lparr>command_workers := (command_workers s)(u \<mapsto> Finished)\<rparr>
           | _ \<Rightarrow> s)
      | _ \<Rightarrow> s)"

text \<open>An abandoned call that has a thread returns; its result goes nowhere.\<close>

definition job_end :: "nat \<Rightarrow> bot \<Rightarrow> bot" where
  "job_end i s =
     (if i < length (running_jobs s) \<and> j_abandoned (thread_pool s ! i) \<and>
         j_reply (thread_pool s ! i) \<noteq> NoReply
      then s\<lparr>thread_pool := take i (thread_pool s) @ drop (Suc i) (thread_pool s)\<rparr>
      else s)"

text \<open>
  What can happen next: a handler of the bot runs, or one of the tasks runs from one
  suspension to the next. A run of the bot is a list of such events.
\<close>

datatype event =
    Submit int string
  | Cancel int
  | StopSession int
  | Create int string string "int option" string string bool bool run_reply
  | WorkerStart int
  | WorkerTake int reply
  | WorkerResume int
  | WorkerIdle int
  | JobEnd nat

fun step :: "bot \<Rightarrow> event \<Rightarrow> bot" where
  "step s (Submit u text) = snd (execute_command u text s)"
| "step s (Cancel u) = cancel_user_commands u s"
| "step s (StopSession u) = stop_session u s"
| "step s (Create u img sh ttl ttl_disp config_key net test dr) =
     snd (create_user_container u img sh ttl ttl_disp config_key net test dr s)"
| "step s (WorkerStart u) = worker_start u s"
| "step s (WorkerTake u rp) = worker_take u rp s"
| "step s (WorkerResume u) = worker_resume u s"
| "step s (WorkerIdle u) = worker_idle u s"
| "step s (JobEnd i) = job_end i s"

definition run :: "event list \<Rightarrow> bot \<Rightarrow> bot" where
  "run evs s = foldl step s evs"

text \<open>
  What the chat shows for one user: the entries in the order they were accepted into the
  queue, and the entries in the order their results were sent. \<open>pending\<close> are the entries
  the worker still holds: the one being executed, then the queue.
\<close>

definition is_queued :: "notice \<Rightarrow> bool" where
  "is_queued n = (case n of InQueue k \<Rightarrow> True | _ \<Rightarrow> False)"

definition queued_of :: "int \<Rightarrow> bot \<Rightarrow> entry list" where
  "queued_of u s =
     map (\<lambda>x. fst (snd x)) (filter (\<lambda>x. fst x = u \<and> is_queued (snd (snd x))) (chat s))"

definition answered_of :: "int \<Rightarrow> bot \<Rightarrow> entry list" where
  "answered_of u s =
     map (\<lambda>x. fst (snd x)) (filter (\<lambda>x. fst x = u \<and> \<not> is_queued (snd (snd x))) (chat s))"

definition held_by :: "task option \<Rightarrow> entry list" where
  "held_by w = (case w of Some (Busy j) \<Rightarrow> [j_entry j] | _ \<Rightarrow> [])"

definition queue_of :: "entry list option \<Rightarrow> entry list" where
  "queue_of q = (case q of None \<Rightarrow> [] | Some es \<Rightarrow> es)"

definition pending_of :: "int \<Rightarrow> bot \<Rightarrow> entry list" where
  "pending_of u s = held_by (command_workers s u) @ queue_of (command_queues s u)"

text \<open>The calls of one user in the thread pool that are still awaited.\<close>

definition awaited_jobs :: "int \<Rightarrow> bot \<Rightarrow> job list" where
  "awaited_jobs u s = filter (\<lambda>j. j_user j = u \<and> \<not> j_abandoned j) (thread_pool s)"

text \<open>The calls of one user that have a thread, as (container, command).\<close>

definition running_of :: "int \<Rightarrow> bot \<Rightarrow> (string \<times> string) list" where
  "running_of u s =
     map (\<lambda>j. (j_cid j, j_cmd j)) (filter (\<lambda>j. j_user j = u) (running_jobs s))"

section \<open>Notions used in the statements\<close>

text \<open>
  The condition under which the loop body of \<^verbatim>\<open>cleanup_old_sessions\<close> deletes a record:
  the record names a container, and Docker does not know it or reports it as not running.
\<close>

definition stale_session :: "int \<Rightarrow> bot \<Rightarrow> bool" where
  "stale_session u s =
     (case sessions s u of
        None \<Rightarrow> False
      | Some r \<Rightarrow>
          container_id r \<noteq> [] \<and>
          (case containers s (container_id r) of
             None \<Rightarrow> True
           | Some c \<Rightarrow> c_status c \<noteq> Running))"



text \<open>
  The state \<^verbatim>\<open>create_user_container\<close> leaves once Docker has started the new container
  \<open>cid\<close> with the configuration \<open>cfg\<close>.
\<close>

definition created :: "int \<Rightarrow> string \<Rightarrow> string \<Rightarrow> int option \<Rightarrow> string \<Rightarrow> config \<Rightarrow> bool \<Rightarrow> bool \<Rightarrow> string \<Rightarrow> bot \<Rightarrow> bot" where
  "created u img sh ttl ttl_disp cfg net test cid s =
     (remove_container_of_session u s)
       \<lparr>containers := (containers (remove_container_of_session u s))
          (cid \<mapsto> container_kwargs u img net cfg (u \<notin> confirmed_users s \<and> \<not> test)),
        docker_log := docker_log (remove_container_of_session u s) @ [Run cid],
        sessions := (sessions s)
          (u \<mapsto> session_data cid img sh ttl ttl_disp cfg net (u \<in> confirmed_users s) test)\<rparr>"

text \<open>The events that cancel the queue and the worker of a user.\<close>

definition cancels :: "int \<Rightarrow> event \<Rightarrow> bool" where
  "cancels u ev = (ev = Cancel u \<or> ev = StopSession u)"









text \<open>
  From \<open>s\<close> to \<open>s'\<close> the worker of the user has stayed finished, no further command of
  the user was answered, and the queue has only grown.
\<close>

definition stuck :: "int \<Rightarrow> bot \<Rightarrow> bot \<Rightarrow> bool" where
  "stuck u s s' =
     (command_workers s' u = Some Finished \<and> answered_of u s' = answered_of u s \<and>
      prefix (queue_of (command_queues s u)) (queue_of (command_queues s' u)))"


text \<open>
  The state after \<^verbatim>\<open>__init__\<close> on an empty Redis and a Docker without containers
  (\<^verbatim>\<open>admin_ids\<close> is empty in the source, so nobody is confirmed).
\<close>

definition init_bot :: bot where
  "init_bot =
     \<lparr>confirmed_users = {}, tokens = Map.empty, sessions = Map.empty,
      containers = Map.empty, docker_log = [],
      command_queues = Map.empty, command_workers = Map.empty, active_commands = {},
      thread_pool = [], next_job = 0, next_msg = 0, chat = []\<rparr>"

section \<open>Concrete states for the examples\<close>

text \<open>User 1 is confirmed; users 3 and 4 hold 2 and 0 tokens; user 2 has no balance yet.\<close>

definition ledger_demo :: bot where
  "ledger_demo = init_bot\<lparr>confirmed_users := {1}, tokens := [1 \<mapsto> 0, 3 \<mapsto> 2, 4 \<mapsto> 0]\<rparr>"

text \<open>
  User 1 is confirmed and has an ordinary session; user 2 is unconfirmed with an ordinary
  session; user 3 is unconfirmed with a test session. Each container exists and runs.
\<close>

definition demo_session :: "string \<Rightarrow> bool \<Rightarrow> bool \<Rightarrow> session" where
  "demo_session cid conf test =
     \<lparr>container_id = cid, image = ''alpine:latest'', shell = ''sh'', ttl_seconds = None,
      ttl_display = ''always'', config_name = ''Bazovaya'', network = True,
      is_confirmed = conf, is_test = test\<rparr>"

definition demo_container :: "int \<Rightarrow> container" where
  "demo_container u =
     \<lparr>c_status = Running, c_owner = u, c_image = ''alpine:latest'',
      c_network_mode = ''bridge'', c_mem_limit = ''64m'', c_cpu_period = 100000,
      c_cpu_quota = 30000, c_pids_limit = 20\<rparr>"

definition shell_demo :: bot where
  "shell_demo =
     init_bot\<lparr>confirmed_users := {1},
       sessions := [1 \<mapsto> demo_session ''c1'' True False, 2 \<mapsto> demo_session ''c2'' False False,
                    3 \<mapsto> demo_session ''c3'' False True],
       containers := [''c1'' \<mapsto> demo_container 1, ''c2'' \<mapsto> demo_container 2,
                      ''c3'' \<mapsto> demo_container 3]\<rparr>"


text \<open>The catalogue entry \<^verbatim>\<open>minimal\<close>.\<close>

definition minimal_config :: config where
  "minimal_config =
     \<lparr>cfg_name = ''Bazovaya'', cfg_cpu_period = 100000, cfg_cpu_quota = 30000,
      cfg_mem_limit = ''246m'', cfg_pids_limit = 25,
      cfg_description = ''246MB RAM, 30% CPU''\<rparr>"


text \<open>
  A run that leaves user 1 with a queue and a worker but no session: after a first
  command, a second \<^verbatim>\<open>create_user_container\<close> removes the old container and then fails to
  start a new one, so the next command finds no container and deletes the session record.
\<close>

definition orphan_events :: "event list" where
  "orphan_events =
     [Create 1 ''alpine:latest'' ''sh'' None ''always'' ''minimal'' True True (Started ''c1''),
      Submit 1 ''ls'',
      WorkerStart 1,
      WorkerTake 1 (Reply 1 ''bin'' 0),
      WorkerResume 1,
      Create 1 ''nosuch:latest'' ''sh'' None ''always'' ''minimal'' True True
        (RunError ''pull access denied''),
      Submit 1 ''pwd'',
      WorkerTake 1 (Reply 1 [] 0)]"



text \<open>An ordinary session whose one command has been answered.\<close>

definition idle_events :: "event list" where
  "idle_events =
     [Create 1 ''ubuntu:latest'' ''bash'' (Some 1800) ''30m'' ''minimal'' True False (Started ''c1''),
      Submit 1 ''ls'',
      WorkerStart 1,
      WorkerTake 1 (Reply 1 ''bin'' 0),
      WorkerResume 1]"


section \<open>Token ledger: proofs\<close>

lemma consume_tokens_confirmed:
  "u \<in> confirmed_users s \<Longrightarrow> consume_tokens u a s = (True, s)"
  by (simp add: consume_tokens_def is_confirmed_user_def)

lemma consume_tokens_empty:
  "u \<notin> confirmed_users s \<Longrightarrow> get_user_tokens u s \<le> 0 \<Longrightarrow> consume_tokens u a s = (False, s)"
  by (simp add: consume_tokens_def is_confirmed_user_def)

lemma consume_tokens_positive:
  "u \<notin> confirmed_users s \<Longrightarrow> 0 < get_user_tokens u s \<Longrightarrow>
   consume_tokens u a s =
     (True, s\<lparr>tokens := (tokens s)(u \<mapsto> max 0 (get_user_tokens u s - a))\<rparr>)"
  by (simp add: consume_tokens_def is_confirmed_user_def Let_def)

lemma consume_times_countdown:
  "u \<notin> confirmed_users s \<Longrightarrow> int n \<le> get_user_tokens u s \<Longrightarrow>
   fst (consume_times u n s) = replicate n True \<and>
   get_user_tokens u (snd (consume_times u n s)) = get_user_tokens u s - int n \<and>
   confirmed_users (snd (consume_times u n s)) = confirmed_users s"
proof (induction n arbitrary: s)
  case 0
  show ?case by simp
next
  case (Suc n)
  let ?t = "s\<lparr>tokens := (tokens s)(u \<mapsto> max 0 (get_user_tokens u s - 1))\<rparr>"
  from Suc.prems have pos: "0 < get_user_tokens u s" by simp
  with Suc.prems have step: "consume_tokens u 1 s = (True, ?t)"
    by (simp add: consume_tokens_positive)
  have bal: "get_user_tokens u ?t = get_user_tokens u s - 1"
    using pos by (simp add: get_user_tokens_def)
  have "u \<notin> confirmed_users ?t" using Suc.prems by simp
  moreover have "int n \<le> get_user_tokens u ?t" using Suc.prems bal by simp
  ultimately have ih:
    "fst (consume_times u n ?t) = replicate n True \<and>
     get_user_tokens u (snd (consume_times u n ?t)) = get_user_tokens u ?t - int n \<and>
     confirmed_users (snd (consume_times u n ?t)) = confirmed_users ?t"
    by (rule Suc.IH)
  show ?case using ih bal step by (simp add: split_beta)
qed

lemma init_user_tokens_fresh:
  "tokens s u = None \<Longrightarrow>
   get_user_tokens u (init_user_tokens u s) = 480 \<and>
   confirmed_users (init_user_tokens u s) = confirmed_users s"
  by (simp add: init_user_tokens_def get_user_tokens_def initial_tokens_def)

text \<open>
  C5. \<^verbatim>\<open>consume_tokens\<close> on a confirmed user returns true and leaves the state as it
  was, whatever the balance. On an unconfirmed user it returns false and changes nothing
  when the balance is at most 0, and otherwise returns true and stores
  \<open>max 0 (balance - amount)\<close>. From the initial grant of 480 (what \<^verbatim>\<open>init_user_tokens\<close>
  stores for a user with no balance), 480 successive calls with amount 1 all return true and
  leave the balance 0, and the 481st returns false.
\<close>

theorem consume_tokens_ledger:
  "(u \<in> confirmed_users s \<longrightarrow> consume_tokens u a s = (True, s)) \<and>
   (u \<notin> confirmed_users s \<and> get_user_tokens u s \<le> 0 \<longrightarrow> consume_tokens u a s = (False, s)) \<and>
   (u \<notin> confirmed_users s \<and> 0 < get_user_tokens u s \<longrightarrow>
      consume_tokens u a s =
        (True, s\<lparr>tokens := (tokens s)(u \<mapsto> max 0 (get_user_tokens u s - a))\<rparr>) \<and>
      get_user_tokens u (snd (consume_tokens u a s)) = max 0 (get_user_tokens u s - a)) \<and>
   (u \<notin> confirmed_users s \<and> tokens s u = None \<longrightarrow>
      fst (consume_times u 480 (init_user_tokens u s)) = replicate 480 True \<and>
      get_user_tokens u (snd (consume_times u 480 (init_user_tokens u s))) = 0 \<and>
      fst (consume_tokens u 1 (snd (consume_times u 480 (init_user_tokens u s)))) = False)"
proof (intro conjI impI)
  assume "u \<in> confirmed_users s"
  then show "consume_tokens u a s = (True, s)" by (rule consume_tokens_confirmed)
next
  assume "u \<notin> confirmed_users s \<and> get_user_tokens u s \<le> 0"
  then show "consume_tokens u a s = (False, s)" by (simp add: consume_tokens_empty)
next
  assume h: "u \<notin> confirmed_users s \<and> 0 < get_user_tokens u s"
  then show "consume_tokens u a s =
      (True, s\<lparr>tokens := (tokens s)(u \<mapsto> max 0 (get_user_tokens u s - a))\<rparr>)"
    by (simp add: consume_tokens_positive)
  from h show "get_user_tokens u (snd (consume_tokens u a s)) = max 0 (get_user_tokens u s - a)"
    by (simp add: consume_tokens_positive get_user_tokens_def)
next
  assume h: "u \<notin> confirmed_users s \<and> tokens s u = None"
  let ?s0 = "init_user_tokens u s"
  let ?s1 = "snd (consume_times u 480 ?s0)"
  from h have b0: "get_user_tokens u ?s0 = 480" and c0: "u \<notin> confirmed_users ?s0"
    by (simp_all add: init_user_tokens_fresh)
  from b0 have "int 480 \<le> get_user_tokens u ?s0" by simp
  with c0 have run:
    "fst (consume_times u 480 ?s0) = replicate 480 True \<and>
     get_user_tokens u ?s1 = get_user_tokens u ?s0 - int 480 \<and>
     confirmed_users ?s1 = confirmed_users ?s0"
    by (rule consume_times_countdown)
  from run show "fst (consume_times u 480 ?s0) = replicate 480 True" by simp
  from run b0 show z: "get_user_tokens u ?s1 = 0" by simp
  from run c0 have "u \<notin> confirmed_users ?s1" by simp
  with z show "fst (consume_tokens u 1 ?s1) = False" by (simp add: consume_tokens_empty)
qed

theorem consume_tokens_ledger_witness:
  "(1::int) \<in> confirmed_users ledger_demo \<and>
   consume_tokens 1 7 ledger_demo = (True, ledger_demo) \<and>
   (4::int) \<notin> confirmed_users ledger_demo \<and> get_user_tokens 4 ledger_demo \<le> 0 \<and>
   consume_tokens 4 1 ledger_demo = (False, ledger_demo) \<and>
   (3::int) \<notin> confirmed_users ledger_demo \<and> 0 < get_user_tokens 3 ledger_demo \<and>
   get_user_tokens 3 (snd (consume_tokens 3 5 ledger_demo)) = 0 \<and>
   (2::int) \<notin> confirmed_users ledger_demo \<and> tokens ledger_demo 2 = None \<and>
   get_user_tokens 2 (snd (consume_times 2 480 (init_user_tokens 2 ledger_demo))) = 0 \<and>
   fst (consume_tokens 2 1 (snd (consume_times 2 480 (init_user_tokens 2 ledger_demo)))) = False"
proof -
  have a: "(1::int) \<in> confirmed_users ledger_demo"
    by (simp add: ledger_demo_def init_bot_def)
  have b: "(4::int) \<notin> confirmed_users ledger_demo \<and> get_user_tokens 4 ledger_demo \<le> 0"
    by (simp add: ledger_demo_def init_bot_def get_user_tokens_def)
  have c: "(3::int) \<notin> confirmed_users ledger_demo \<and> 0 < get_user_tokens 3 ledger_demo"
    by (simp add: ledger_demo_def init_bot_def get_user_tokens_def)
  have c': "get_user_tokens 3 ledger_demo = 2"
    by (simp add: ledger_demo_def init_bot_def get_user_tokens_def)
  have d: "(2::int) \<notin> confirmed_users ledger_demo \<and> tokens ledger_demo 2 = None"
    by (simp add: ledger_demo_def init_bot_def)
  show ?thesis
    using a b c c' d consume_tokens_ledger [of 1 ledger_demo 7]
      consume_tokens_ledger [of 4 ledger_demo 1]
      consume_tokens_ledger [of 3 ledger_demo 5]
      consume_tokens_ledger [of 2 ledger_demo 1]
    by (simp add: get_user_tokens_def)
qed

text \<open>
  C10. A user with no stored balance has balance 0: \<^verbatim>\<open>get_user_tokens\<close> returns 0 instead
  of failing. So \<^verbatim>\<open>consume_tokens(user, 1)\<close> on such an unconfirmed user returns false, and
  the state, still without a balance for the user, is unchanged.
\<close>

theorem absent_balance_is_zero:
  "tokens s u = None \<longrightarrow>
     get_user_tokens u s = 0 \<and>
     (u \<notin> confirmed_users s \<longrightarrow>
        consume_tokens u 1 s = (False, s) \<and> tokens (snd (consume_tokens u 1 s)) u = None)"
  by (simp add: get_user_tokens_def consume_tokens_def is_confirmed_user_def)

theorem absent_balance_is_zero_witness:
  "tokens init_bot 5 = None \<and> get_user_tokens 5 init_bot = 0 \<and>
   (5::int) \<notin> confirmed_users init_bot \<and>
   consume_tokens 5 1 init_bot = (False, init_bot) \<and>
   tokens (snd (consume_tokens 5 1 init_bot)) 5 = None"
proof -
  have a: "tokens init_bot 5 = None" by (simp add: init_bot_def)
  have b: "(5::int) \<notin> confirmed_users init_bot" by (simp add: init_bot_def)
  show ?thesis using a b absent_balance_is_zero [of init_bot 5] by simp
qed

section \<open>Running one command: proofs\<close>

lemma starts_with_prefix: "starts_with p cs = prefix p cs"
  by (induction p cs rule: starts_with.induct) simp_all

lemma contains_sublist: "contains p cs = sublist p cs"
  by (induction cs) (simp_all add: sublist_Cons_right starts_with_prefix)

lemma is_command_dangerous_iff:
  "is_command_dangerous command = (\<exists>p \<in> set dangerous_patterns. sublist p (lower command))"
  by (simp add: is_command_dangerous_def list_ex_iff contains_sublist)

lemma lower_pattern: "p \<in> set dangerous_patterns \<Longrightarrow> lower p = p"
  by (auto simp: dangerous_patterns_def lower_def lower_char_def)

lemma raw_match_dangerous:
  assumes "p \<in> set dangerous_patterns" and "sublist p command"
  shows "is_command_dangerous command"
proof -
  from assms(2) have "sublist (map lower_char p) (map lower_char command)"
    by (rule map_mono_sublist)
  then have "sublist (lower p) (lower command)" by (simp add: lower_def)
  with assms(1) have "sublist p (lower command)" by (simp add: lower_pattern)
  with assms(1) show ?thesis unfolding is_command_dangerous_iff by blast
qed

lemma begin_single_command_pass:
  assumes "sessions s u = Some r" and "container_id r \<noteq> []"
    and "containers s (container_id r) \<noteq> None"
    and "u \<in> confirmed_users s \<or> \<not> is_command_dangerous command"
  shows "begin_single_command u command s =
           (Inr (container_id r, full_command (shell r) command, is_test r), s)"
  using assms by (auto simp: begin_single_command_def is_confirmed_user_def)

lemma begin_single_command_forbidden:
  assumes "sessions s u = Some r" and "container_id r \<noteq> []"
    and "containers s (container_id r) \<noteq> None"
    and "u \<notin> confirmed_users s" and "is_command_dangerous command"
  shows "begin_single_command u command s = (Inl CommandForbidden, s)"
  using assms by (auto simp: begin_single_command_def is_confirmed_user_def)

lemma begin_single_command_never_runs:
  assumes "u \<notin> confirmed_users s" and "is_command_dangerous command"
  shows "\<exists>n. fst (begin_single_command u command s) = Inl n \<and>
             thread_pool (snd (begin_single_command u command s)) = thread_pool s \<and>
             containers (snd (begin_single_command u command s)) = containers s \<and>
             chat (snd (begin_single_command u command s)) = chat s"
  using assms
  by (auto simp: begin_single_command_def is_confirmed_user_def redis_delete_session_def
      split: option.splits)

lemma execute_forbidden_never_runs:
  assumes "u \<notin> confirmed_users s" and "is_command_dangerous (snd e)"
  shows "\<exists>s' n. execute_single_command u e rp s = Some s' \<and> thread_pool s' = thread_pool s \<and>
           containers s' = containers s \<and> chat s' = chat s @ [(u, e, n)]"
proof -
  obtain x s1 where b: "begin_single_command u (snd e) s = (x, s1)" by (cases "begin_single_command u (snd e) s")
  from begin_single_command_never_runs [OF assms] b obtain n where
    n: "x = Inl n" "thread_pool s1 = thread_pool s" "containers s1 = containers s" "chat s1 = chat s"
    by auto
  show ?thesis using b n
    by (simp add: execute_single_command_def launch_def edit_text_def)
qed

text \<open>
  C6. The deny-list check is a substring match of the nine fixed patterns against the
  lower-cased command, so a command that contains a pattern as written is matched. For an
  unconfirmed user a matching command is never handed to the thread pool, whatever the
  state: \<^verbatim>\<open>_execute_single_command\<close> returns after writing one notice. When the user's
  session and its container exist (the checks the function makes first), that notice is
  \<open>CommandForbidden\<close> and nothing else changes. For a confirmed user with a session and a
  container the check is skipped: the command is launched as \<^verbatim>\<open>shell -c "command"\<close> with
  its text unchanged.
\<close>

theorem deny_list_check:
  "is_command_dangerous command = (\<exists>p \<in> set dangerous_patterns. sublist p (lower command)) \<and>
   (\<forall>p \<in> set dangerous_patterns. sublist p command \<longrightarrow> is_command_dangerous command) \<and>
   (u \<notin> confirmed_users s \<and> is_command_dangerous (snd e) \<longrightarrow>
      (\<exists>s' n. execute_single_command u e rp s = Some s' \<and> thread_pool s' = thread_pool s \<and>
         containers s' = containers s \<and> chat s' = chat s @ [(u, e, n)])) \<and>
   (u \<notin> confirmed_users s \<and> is_command_dangerous (snd e) \<and> sessions s u = Some r \<and>
    container_id r \<noteq> [] \<and> containers s (container_id r) \<noteq> None \<longrightarrow>
      execute_single_command u e rp s = Some (edit_text u e CommandForbidden s)) \<and>
   (u \<in> confirmed_users s \<and> sessions s u = Some r \<and>
    container_id r \<noteq> [] \<and> containers s (container_id r) \<noteq> None \<longrightarrow>
      launch u e rp s =
        (Some (new_job u e (container_id r, full_command (shell r) (snd e), is_test r) rp s),
         s\<lparr>thread_pool := thread_pool s @
              [new_job u e (container_id r, full_command (shell r) (snd e), is_test r) rp s],
           next_job := Suc (next_job s)\<rparr>))"
proof (intro conjI impI ballI)
  show "is_command_dangerous command = (\<exists>p \<in> set dangerous_patterns. sublist p (lower command))"
    by (rule is_command_dangerous_iff)
next
  fix p assume "p \<in> set dangerous_patterns" and "sublist p command"
  then show "is_command_dangerous command" by (rule raw_match_dangerous)
next
  assume "u \<notin> confirmed_users s \<and> is_command_dangerous (snd e)"
  then show "\<exists>s' n. execute_single_command u e rp s = Some s' \<and> thread_pool s' = thread_pool s \<and>
         containers s' = containers s \<and> chat s' = chat s @ [(u, e, n)]"
    using execute_forbidden_never_runs [of u s e rp] by blast
next
  assume "u \<notin> confirmed_users s \<and> is_command_dangerous (snd e) \<and> sessions s u = Some r \<and>
    container_id r \<noteq> [] \<and> containers s (container_id r) \<noteq> None"
  then show "execute_single_command u e rp s = Some (edit_text u e CommandForbidden s)"
    by (simp add: execute_single_command_def launch_def begin_single_command_forbidden)
next
  assume "u \<in> confirmed_users s \<and> sessions s u = Some r \<and>
    container_id r \<noteq> [] \<and> containers s (container_id r) \<noteq> None"
  then show "launch u e rp s =
        (Some (new_job u e (container_id r, full_command (shell r) (snd e), is_test r) rp s),
         s\<lparr>thread_pool := thread_pool s @
              [new_job u e (container_id r, full_command (shell r) (snd e), is_test r) rp s],
           next_job := Suc (next_job s)\<rparr>)"
    by (simp add: launch_def begin_single_command_pass Let_def)
qed

text \<open>Setting bit 5 is adding 32 on the capitals, as the definition of \<open>lower_char\<close> says.\<close>

lemma lower_char_plus_32:
  "lower_char c =
     (if (65 \<le> (of_char c :: nat) \<and> (of_char c :: nat) \<le> 90) \<or>
         (192 \<le> (of_char c :: nat) \<and> (of_char c :: nat) \<le> 222 \<and> (of_char c :: nat) \<noteq> 215)
      then char_of ((of_char c :: nat) + 32) else c)"
proof (cases c)
  case (Char b0 b1 b2 b3 b4 b5 b6 b7)
  show ?thesis unfolding Char lower_char_def Let_def
    by (cases b0; cases b1; cases b2; cases b3; cases b4; cases b5; cases b6; cases b7)
       (simp_all add: char_of_def bit_0)
qed

lemma job_of_simps:
  "j_id (job_of u e r rp s) = next_job s" "j_entry (job_of u e r rp s) = e"
  "j_test (job_of u e r rp s) = is_test r" "j_reply (job_of u e r rp s) = rp"
  "j_user (job_of u e r rp s) = u" "j_abandoned (job_of u e r rp s) = False"
  by (simp_all add: job_of_def new_job_def)

lemma launch_pass:
  assumes "sessions s u = Some r" and "container_id r \<noteq> []"
    and "containers s (container_id r) \<noteq> None"
    and "u \<in> confirmed_users s \<or> \<not> is_command_dangerous (snd e)"
  shows "launch u e rp s =
           (Some (job_of u e r rp s),
            s\<lparr>thread_pool := thread_pool s @ [job_of u e r rp s],
              next_job := Suc (next_job s)\<rparr>)"
  using assms by (simp add: launch_def begin_single_command_pass job_of_def)

lemma timeout_is_80: "tc_timeout test_config = 80"
  by (simp add: test_config_def)

lemma settle_timeout:
  assumes "j_test j" and "j_reply j = NoReply \<or> (\<exists>d out code. j_reply j = Reply d out code \<and> 80 < d)"
  shows "settle u j s =
           Some (edit_text u (j_entry j) (CommandTimeout 80)
                   (s\<lparr>thread_pool := abandon (j_id j) (thread_pool s)\<rparr>))"
  using assms by (auto simp: settle_def wait_result_def timeout_is_80 is_timeout_def)

lemma settle_sent:
  assumes "list_ex (\<lambda>k. j_id k = j_id j) (running_jobs s)" and "j_reply j = Reply d out code"
    and "\<not> j_test j \<or> d \<le> 80"
  shows "settle u j s =
           Some (edit_text u (j_entry j) (Sent (render_output out code) code)
                   (s\<lparr>thread_pool := filter (\<lambda>k. j_id k \<noteq> j_id j) (thread_pool s)\<rparr>))"
  using assms by (auto simp: settle_def wait_result_def timeout_is_80 is_timeout_def)

lemma settle_untimed:
  assumes "\<not> j_test j" and "settle u j s = Some s'"
  shows "\<exists>out code. chat s' = chat s @ [(u, j_entry j, Sent out code)]"
  using assms
  by (auto simp: settle_def wait_result_def is_timeout_def edit_text_def
      split: reply.splits if_splits)

lemma settle_never:
  assumes "\<not> j_test j" and "j_reply j = NoReply"
  shows "settle u j s = None"
  using assms by (simp add: settle_def wait_result_def)

lemma newest_job_runs:
  assumes "length (thread_pool s) < max_workers"
  shows "list_ex (\<lambda>k. j_id k = j_id j)
           (running_jobs (s\<lparr>thread_pool := thread_pool s @ [j], next_job := n\<rparr>))"
  using assms by (simp add: running_jobs_def)

text \<open>
  C7. The timeout of a test session is 80 seconds. For a command that passes the checks of
  \<^verbatim>\<open>_execute_single_command\<close>: in a test session a call that has not returned after 80
  seconds, or never returns, ends in the notice \<open>CommandTimeout 80\<close> and no result is
  sent, while a call that returns within 80 seconds on a free thread has its result sent.
  In an ordinary session no run ends in a timeout notice: on a free thread the result is
  sent however long the call took, and a call that never returns is awaited for ever.
\<close>

theorem probationary_timeout:
  "tc_timeout test_config = 80 \<and>
   (sessions s u = Some r \<and> container_id r \<noteq> [] \<and> containers s (container_id r) \<noteq> None \<and>
    (u \<in> confirmed_users s \<or> \<not> is_command_dangerous (snd e)) \<longrightarrow>
      (is_test r \<longrightarrow>
         (\<forall>d out code. 80 < d \<longrightarrow>
            (\<exists>s'. execute_single_command u e (Reply d out code) s = Some s' \<and>
                  chat s' = chat s @ [(u, e, CommandTimeout 80)])) \<and>
         (\<exists>s'. execute_single_command u e NoReply s = Some s' \<and>
               chat s' = chat s @ [(u, e, CommandTimeout 80)]) \<and>
         (\<forall>d out code. d \<le> 80 \<and> length (thread_pool s) < max_workers \<longrightarrow>
            (\<exists>s'. execute_single_command u e (Reply d out code) s = Some s' \<and>
                  chat s' = chat s @ [(u, e, Sent (render_output out code) code)]))) \<and>
      (\<not> is_test r \<longrightarrow>
         (\<forall>rp s'. execute_single_command u e rp s = Some s' \<longrightarrow>
            (\<exists>out code. chat s' = chat s @ [(u, e, Sent out code)])) \<and>
         (\<forall>d out code. length (thread_pool s) < max_workers \<longrightarrow>
            (\<exists>s'. execute_single_command u e (Reply d out code) s = Some s' \<and>
                  chat s' = chat s @ [(u, e, Sent (render_output out code) code)])) \<and>
         execute_single_command u e NoReply s = None))"
proof (intro conjI impI allI)
  show "tc_timeout test_config = 80" by (rule timeout_is_80)
next
  fix d :: nat and out :: string and code :: int
  assume h: "sessions s u = Some r \<and> container_id r \<noteq> [] \<and>
    containers s (container_id r) \<noteq> None \<and>
    (u \<in> confirmed_users s \<or> \<not> is_command_dangerous (snd e))"
    and t: "is_test r" and d: "80 < d"
  from h have l: "launch u e (Reply d out code) s =
     (Some (job_of u e r (Reply d out code) s),
      s\<lparr>thread_pool := thread_pool s @ [job_of u e r (Reply d out code) s],
        next_job := Suc (next_job s)\<rparr>)"
    by (simp add: launch_pass)
  have "j_test (job_of u e r (Reply d out code) s)" using t by (simp add: job_of_simps)
  moreover have "j_reply (job_of u e r (Reply d out code) s) = NoReply \<or>
    (\<exists>d' out' code'. j_reply (job_of u e r (Reply d out code) s) = Reply d' out' code' \<and> 80 < d')"
    using d by (simp add: job_of_simps)
  ultimately show "\<exists>s'. execute_single_command u e (Reply d out code) s = Some s' \<and>
      chat s' = chat s @ [(u, e, CommandTimeout 80)]"
    using l by (simp add: execute_single_command_def settle_timeout edit_text_def job_of_simps)
next
  assume h: "sessions s u = Some r \<and> container_id r \<noteq> [] \<and>
    containers s (container_id r) \<noteq> None \<and>
    (u \<in> confirmed_users s \<or> \<not> is_command_dangerous (snd e))"
    and t: "is_test r"
  from h have l: "launch u e NoReply s =
     (Some (job_of u e r NoReply s),
      s\<lparr>thread_pool := thread_pool s @ [job_of u e r NoReply s],
        next_job := Suc (next_job s)\<rparr>)"
    by (simp add: launch_pass)
  have "j_test (job_of u e r NoReply s)" using t by (simp add: job_of_simps)
  moreover have "j_reply (job_of u e r NoReply s) = NoReply \<or>
    (\<exists>d' out' code'. j_reply (job_of u e r NoReply s) = Reply d' out' code' \<and> 80 < d')"
    by (simp add: job_of_simps)
  ultimately show "\<exists>s'. execute_single_command u e NoReply s = Some s' \<and>
      chat s' = chat s @ [(u, e, CommandTimeout 80)]"
    using l by (simp add: execute_single_command_def settle_timeout edit_text_def job_of_simps)
next
  fix d :: nat and out :: string and code :: int
  assume h: "sessions s u = Some r \<and> container_id r \<noteq> [] \<and>
    containers s (container_id r) \<noteq> None \<and>
    (u \<in> confirmed_users s \<or> \<not> is_command_dangerous (snd e))"
    and d: "d \<le> 80 \<and> length (thread_pool s) < max_workers"
  let ?j = "job_of u e r (Reply d out code) s"
  let ?s1 = "s\<lparr>thread_pool := thread_pool s @ [?j], next_job := Suc (next_job s)\<rparr>"
  from h have l: "launch u e (Reply d out code) s = (Some ?j, ?s1)"
    by (simp add: launch_pass)
  have run: "list_ex (\<lambda>k. j_id k = j_id ?j) (running_jobs ?s1)"
    using d by (simp add: newest_job_runs)
  have "j_reply ?j = Reply d out code" by (simp add: job_of_simps)
  moreover have "\<not> j_test ?j \<or> d \<le> 80" using d by simp
  ultimately have "settle u ?j ?s1 =
      Some (edit_text u (j_entry ?j) (Sent (render_output out code) code)
              (?s1\<lparr>thread_pool := filter (\<lambda>k. j_id k \<noteq> j_id ?j) (thread_pool ?s1)\<rparr>))"
    using run by (rule settle_sent [rotated -1, rotated -1])
  then show "\<exists>s'. execute_single_command u e (Reply d out code) s = Some s' \<and>
      chat s' = chat s @ [(u, e, Sent (render_output out code) code)]"
    using l by (simp add: execute_single_command_def edit_text_def job_of_simps)
next
  fix rp :: reply and s' :: bot
  assume h: "sessions s u = Some r \<and> container_id r \<noteq> [] \<and>
    containers s (container_id r) \<noteq> None \<and>
    (u \<in> confirmed_users s \<or> \<not> is_command_dangerous (snd e))"
    and t: "\<not> is_test r" and x: "execute_single_command u e rp s = Some s'"
  let ?j = "job_of u e r rp s"
  let ?s1 = "s\<lparr>thread_pool := thread_pool s @ [?j], next_job := Suc (next_job s)\<rparr>"
  from h have l: "launch u e rp s = (Some ?j, ?s1)" by (simp add: launch_pass)
  with x have "settle u ?j ?s1 = Some s'" by (simp add: execute_single_command_def)
  moreover have "\<not> j_test ?j" using t by (simp add: job_of_simps)
  ultimately have "\<exists>out code. chat s' = chat ?s1 @ [(u, j_entry ?j, Sent out code)]"
    by (rule settle_untimed [rotated])
  then show "\<exists>out code. chat s' = chat s @ [(u, e, Sent out code)]"
    by (simp add: job_of_simps)
next
  fix d :: nat and out :: string and code :: int
  assume h: "sessions s u = Some r \<and> container_id r \<noteq> [] \<and>
    containers s (container_id r) \<noteq> None \<and>
    (u \<in> confirmed_users s \<or> \<not> is_command_dangerous (snd e))"
    and t: "\<not> is_test r" and d: "length (thread_pool s) < max_workers"
  let ?j = "job_of u e r (Reply d out code) s"
  let ?s1 = "s\<lparr>thread_pool := thread_pool s @ [?j], next_job := Suc (next_job s)\<rparr>"
  from h have l: "launch u e (Reply d out code) s = (Some ?j, ?s1)"
    by (simp add: launch_pass)
  have run: "list_ex (\<lambda>k. j_id k = j_id ?j) (running_jobs ?s1)"
    using d by (simp add: newest_job_runs)
  have "j_reply ?j = Reply d out code" by (simp add: job_of_simps)
  moreover have "\<not> j_test ?j \<or> d \<le> 80" using t by (simp add: job_of_simps)
  ultimately have "settle u ?j ?s1 =
      Some (edit_text u (j_entry ?j) (Sent (render_output out code) code)
              (?s1\<lparr>thread_pool := filter (\<lambda>k. j_id k \<noteq> j_id ?j) (thread_pool ?s1)\<rparr>))"
    using run by (rule settle_sent [rotated -1, rotated -1])
  then show "\<exists>s'. execute_single_command u e (Reply d out code) s = Some s' \<and>
      chat s' = chat s @ [(u, e, Sent (render_output out code) code)]"
    using l by (simp add: execute_single_command_def edit_text_def job_of_simps)
next
  assume h: "sessions s u = Some r \<and> container_id r \<noteq> [] \<and>
    containers s (container_id r) \<noteq> None \<and>
    (u \<in> confirmed_users s \<or> \<not> is_command_dangerous (snd e))"
    and t: "\<not> is_test r"
  let ?j = "job_of u e r NoReply s"
  from h have l: "launch u e NoReply s =
      (Some ?j, s\<lparr>thread_pool := thread_pool s @ [?j], next_job := Suc (next_job s)\<rparr>)"
    by (simp add: launch_pass)
  have "\<not> j_test ?j" and "j_reply ?j = NoReply" using t by (simp_all add: job_of_simps)
  then show "execute_single_command u e NoReply s = None"
    using l by (simp add: execute_single_command_def settle_never)
qed

lemma shell_demo_facts:
  "(2::int) \<notin> confirmed_users shell_demo" "(3::int) \<notin> confirmed_users shell_demo"
  "(1::int) \<in> confirmed_users shell_demo"
  "sessions shell_demo 1 = Some (demo_session ''c1'' True False)"
  "sessions shell_demo 2 = Some (demo_session ''c2'' False False)"
  "sessions shell_demo 3 = Some (demo_session ''c3'' False True)"
  "containers shell_demo ''c1'' \<noteq> None" "containers shell_demo ''c2'' \<noteq> None"
  "containers shell_demo ''c3'' \<noteq> None"
  "thread_pool shell_demo = []" "chat shell_demo = []"
  by (simp_all add: shell_demo_def init_bot_def)

lemma demo_session_simps:
  "container_id (demo_session c a b) = c" "shell (demo_session c a b) = ''sh''"
  "is_test (demo_session c a b) = b"
  by (simp_all add: demo_session_def)

lemma rm_rf_dangerous: "is_command_dangerous ''rm -rf /''"
  by (simp add: is_command_dangerous_def dangerous_patterns_def lower_def lower_char_def)

lemma sleep_harmless: "\<not> is_command_dangerous ''sleep 100''"
  by (simp add: is_command_dangerous_def dangerous_patterns_def lower_def lower_char_def)

theorem deny_list_check_witness:
  "(2::int) \<notin> confirmed_users shell_demo \<and>
   is_command_dangerous (snd (0::nat, ''rm -rf /'')) \<and>
   sessions shell_demo 2 = Some (demo_session ''c2'' False False) \<and>
   container_id (demo_session ''c2'' False False) \<noteq> [] \<and>
   containers shell_demo (container_id (demo_session ''c2'' False False)) \<noteq> None \<and>
   execute_single_command 2 (0, ''rm -rf /'') (Reply 1 [] 0) shell_demo =
     Some (edit_text 2 (0, ''rm -rf /'') CommandForbidden shell_demo) \<and>
   (1::int) \<in> confirmed_users shell_demo \<and>
   sessions shell_demo 1 = Some (demo_session ''c1'' True False) \<and>
   fst (launch 1 (0, ''rm -rf /'') (Reply 1 [] 0) shell_demo) =
     Some (new_job 1 (0, ''rm -rf /'') (''c1'', full_command ''sh'' ''rm -rf /'', False)
             (Reply 1 [] 0) shell_demo) \<and>
   ''rm -rf /'' \<in> set dangerous_patterns \<and> sublist ''rm -rf /'' ''sudo rm -rf / now'' \<and>
   is_command_dangerous ''sudo rm -rf / now''"
proof -
  let ?e = "(0::nat, ''rm -rf /'')"
  let ?r2 = "demo_session ''c2'' False False"
  let ?r1 = "demo_session ''c1'' True False"
  have d: "is_command_dangerous (snd ?e)" by (simp add: rm_rf_dangerous)
  have c2: "container_id ?r2 \<noteq> [] \<and> containers shell_demo (container_id ?r2) \<noteq> None"
    by (simp add: demo_session_simps shell_demo_facts)
  have c1: "container_id ?r1 \<noteq> [] \<and> containers shell_demo (container_id ?r1) \<noteq> None"
    by (simp add: demo_session_simps shell_demo_facts)
  have p: "''rm -rf /'' \<in> set dangerous_patterns" by (simp add: dangerous_patterns_def)
  have "''sudo rm -rf / now'' = ''sudo '' @ ''rm -rf /'' @ '' now''" by simp
  then have sub: "sublist ''rm -rf /'' ''sudo rm -rf / now''" unfolding sublist_def by blast
  from deny_list_check [where u = 2 and s = shell_demo and e = ?e and rp = "Reply 1 [] 0"
      and r = ?r2] d c2 shell_demo_facts(1,5)
  have x: "execute_single_command 2 ?e (Reply 1 [] 0) shell_demo =
     Some (edit_text 2 ?e CommandForbidden shell_demo)" by blast
  from deny_list_check [where u = 1 and s = shell_demo and e = ?e and rp = "Reply 1 [] 0"
      and r = ?r1] c1 shell_demo_facts(3,4)
  have "launch 1 ?e (Reply 1 [] 0) shell_demo =
      (Some (new_job 1 ?e (container_id ?r1, full_command (shell ?r1) (snd ?e), is_test ?r1)
         (Reply 1 [] 0) shell_demo),
       shell_demo\<lparr>thread_pool := thread_pool shell_demo @
          [new_job 1 ?e (container_id ?r1, full_command (shell ?r1) (snd ?e), is_test ?r1)
             (Reply 1 [] 0) shell_demo],
         next_job := Suc (next_job shell_demo)\<rparr>)" by blast
  then have l: "fst (launch 1 ?e (Reply 1 [] 0) shell_demo) =
     Some (new_job 1 ?e (''c1'', full_command ''sh'' ''rm -rf /'', False) (Reply 1 [] 0) shell_demo)"
    by (simp add: demo_session_simps)
  from deny_list_check [where command = "''sudo rm -rf / now''"] p sub
  have m: "is_command_dangerous ''sudo rm -rf / now''" by blast
  show ?thesis using d c2 x l p sub m shell_demo_facts(1,3,4,5) by blast
qed

theorem probationary_timeout_witness:
  "sessions shell_demo 3 = Some (demo_session ''c3'' False True) \<and>
   is_test (demo_session ''c3'' False True) \<and> (80::nat) < 100 \<and>
   (\<exists>s'. execute_single_command 3 (0, ''sleep 100'') (Reply 100 [] 0) shell_demo = Some s' \<and>
         chat s' = chat shell_demo @ [(3, (0, ''sleep 100''), CommandTimeout 80)]) \<and>
   sessions shell_demo 2 = Some (demo_session ''c2'' False False) \<and>
   \<not> is_test (demo_session ''c2'' False False) \<and>
   length (thread_pool shell_demo) < max_workers \<and>
   (\<exists>s'. execute_single_command 2 (0, ''sleep 100'') (Reply 100 [] 0) shell_demo = Some s' \<and>
         chat s' = chat shell_demo @
           [(2, (0, ''sleep 100''), Sent (render_output [] 0) 0)]) \<and>
   execute_single_command 2 (0, ''sleep 100'') NoReply shell_demo = None"
proof -
  let ?e = "(0::nat, ''sleep 100'')"
  let ?r3 = "demo_session ''c3'' False True"
  let ?r2 = "demo_session ''c2'' False False"
  have h3: "sessions shell_demo 3 = Some ?r3 \<and> container_id ?r3 \<noteq> [] \<and>
      containers shell_demo (container_id ?r3) \<noteq> None \<and>
      (3 \<in> confirmed_users shell_demo \<or> \<not> is_command_dangerous (snd ?e))"
    by (simp add: demo_session_simps shell_demo_facts sleep_harmless)
  have h2: "sessions shell_demo 2 = Some ?r2 \<and> container_id ?r2 \<noteq> [] \<and>
      containers shell_demo (container_id ?r2) \<noteq> None \<and>
      (2 \<in> confirmed_users shell_demo \<or> \<not> is_command_dangerous (snd ?e))"
    by (simp add: demo_session_simps shell_demo_facts sleep_harmless)
  have t3: "is_test ?r3" and t2: "\<not> is_test ?r2" by (simp_all add: demo_session_simps)
  have free: "length (thread_pool shell_demo) < max_workers"
    by (simp add: shell_demo_facts max_workers_def)
  have lt: "(80::nat) < 100" by simp
  from probationary_timeout [where s = shell_demo and u = 3 and r = ?r3 and e = ?e] h3 t3 lt
  have a: "\<exists>s'. execute_single_command 3 ?e (Reply 100 [] 0) shell_demo = Some s' \<and>
         chat s' = chat shell_demo @ [(3, ?e, CommandTimeout 80)]" by blast
  from probationary_timeout [where s = shell_demo and u = 2 and r = ?r2 and e = ?e] h2 t2 free
  have b: "(\<exists>s'. execute_single_command 2 ?e (Reply 100 [] 0) shell_demo = Some s' \<and>
         chat s' = chat shell_demo @ [(2, ?e, Sent (render_output [] 0) 0)]) \<and>
     execute_single_command 2 ?e NoReply shell_demo = None" by blast
  show ?thesis using h3 h2 t3 t2 free lt a b by blast
qed

section \<open>The session manager: proofs\<close>

lemma check_session_eq:
  "check_session u s = (if stale_session u s then redis_delete_session u s else s)"
  by (simp add: check_session_def stale_session_def split: option.splits)

lemma check_session_frame:
  "confirmed_users (check_session u s) = confirmed_users s"
  "tokens (check_session u s) = tokens s"
  "containers (check_session u s) = containers s"
  "docker_log (check_session u s) = docker_log s"
  "command_queues (check_session u s) = command_queues s"
  "command_workers (check_session u s) = command_workers s"
  "thread_pool (check_session u s) = thread_pool s"
  by (simp_all add: check_session_eq redis_delete_session_def)

lemma check_session_sessions:
  "sessions (check_session u s) v = (if v = u \<and> stale_session u s then None else sessions s v)"
  by (simp add: check_session_eq redis_delete_session_def)

lemma check_session_stale:
  "stale_session v (check_session u s) = (stale_session v s \<and> \<not> (v = u))"
  by (auto simp: stale_session_def check_session_sessions check_session_frame
      split: option.splits)


lemma cleanup_old_sessions_sessions:
  "sessions (cleanup_old_sessions keys s) v =
     (if v \<in> set keys \<and> stale_session v s then None else sessions s v)"
proof (induction keys arbitrary: s)
  case Nil
  show ?case by simp
next
  case (Cons k keys)
  have "sessions (cleanup_old_sessions (k # keys) s) v =
        sessions (cleanup_old_sessions keys (check_session k s)) v" by simp
  also have "\<dots> = (if v \<in> set keys \<and> stale_session v (check_session k s) then None
                    else sessions (check_session k s) v)"
    by (rule Cons.IH)
  also have "\<dots> = (if v \<in> set (k # keys) \<and> stale_session v s then None else sessions s v)"
    by (auto simp: check_session_stale check_session_sessions)
  finally show ?case .
qed


text \<open>
  At start-up the container sweep comes first, so the scan that follows finds every
  record that names a swept container stale and deletes it.
\<close>

lemma cleanup_old_containers_fields:
  "sessions (cleanup_old_containers cids s) = sessions s"
  "containers (cleanup_old_containers cids s) cid =
     (if cid \<in> set cids then None else containers s cid)"
  by (induction cids arbitrary: s) (auto simp: stop_and_remove_def split: option.splits)

lemma startup_deletes_swept_sessions:
  assumes "sessions s u = Some r" and "container_id r \<noteq> []"
    and "container_id r \<in> set cids" and "u \<in> set keys"
  shows "sessions (cleanup_old_sessions keys (cleanup_old_containers cids s)) u = None"
proof -
  have "stale_session u (cleanup_old_containers cids s)"
    using assms(1,2,3) by (simp add: stale_session_def cleanup_old_containers_fields)
  with assms(4) show ?thesis by (simp add: cleanup_old_sessions_sessions)
qed

lemma cancel_user_commands_frame:
  "confirmed_users (cancel_user_commands u s) = confirmed_users s"
  "tokens (cancel_user_commands u s) = tokens s"
  "sessions (cancel_user_commands u s) = sessions s"
  "containers (cancel_user_commands u s) = containers s"
  "docker_log (cancel_user_commands u s) = docker_log s"
  "chat (cancel_user_commands u s) = chat s"
  "next_job (cancel_user_commands u s) = next_job s"
  "next_msg (cancel_user_commands u s) = next_msg s"
  by (simp_all add: cancel_user_commands_def Let_def split: option.splits)

lemma cancel_user_commands_clears:
  "command_workers (cancel_user_commands u s) = (command_workers s)(u := None)"
  "command_queues (cancel_user_commands u s) = (command_queues s)(u := None)"
  "active_commands (cancel_user_commands u s) = active_commands s - {u}"
  by (auto simp: cancel_user_commands_def Let_def split: option.splits)

lemma cancel_user_commands_idle:
  assumes "command_workers s u = None" and "command_queues s u = None"
    and "u \<notin> active_commands s"
  shows "cancel_user_commands u s = s"
  using assms by (simp add: cancel_user_commands_def)

lemma redis_delete_session_absent:
  "sessions s u = None \<Longrightarrow> redis_delete_session u s = s"
  by (simp add: redis_delete_session_def fun_upd_idem)

lemma stop_session_no_session:
  assumes "sessions s u = None"
  shows "stop_session u s = cancel_user_commands u s"
proof -
  have "sessions (cancel_user_commands u s) u = None"
    using assms by (simp add: cancel_user_commands_frame)
  then show ?thesis
    by (simp add: stop_session_def remove_container_of_session_def redis_delete_session_absent)
qed

lemma stop_and_remove_frame:
  "sessions (stop_and_remove c s) = sessions s"
  "command_workers (stop_and_remove c s) = command_workers s"
  "command_queues (stop_and_remove c s) = command_queues s"
  "active_commands (stop_and_remove c s) = active_commands s"
  "confirmed_users (stop_and_remove c s) = confirmed_users s"
  "tokens (stop_and_remove c s) = tokens s"
  "thread_pool (stop_and_remove c s) = thread_pool s"
  "chat (stop_and_remove c s) = chat s"
  "next_job (stop_and_remove c s) = next_job s"
  "next_msg (stop_and_remove c s) = next_msg s"
  by (simp_all add: stop_and_remove_def split: option.splits)

lemma remove_container_of_session_frame:
  "sessions (remove_container_of_session u s) = sessions s"
  "command_workers (remove_container_of_session u s) = command_workers s"
  "command_queues (remove_container_of_session u s) = command_queues s"
  "active_commands (remove_container_of_session u s) = active_commands s"
  "confirmed_users (remove_container_of_session u s) = confirmed_users s"
  "tokens (remove_container_of_session u s) = tokens s"
  "thread_pool (remove_container_of_session u s) = thread_pool s"
  "chat (remove_container_of_session u s) = chat s"
  "next_job (remove_container_of_session u s) = next_job s"
  "next_msg (remove_container_of_session u s) = next_msg s"
  by (simp_all add: remove_container_of_session_def stop_and_remove_frame split: option.splits)

lemma stop_session_clears:
  "sessions (stop_session u s) u = None"
  "command_workers (stop_session u s) u = None"
  "command_queues (stop_session u s) u = None"
  "u \<notin> active_commands (stop_session u s)"
  by (simp_all add: stop_session_def redis_delete_session_def
      remove_container_of_session_frame cancel_user_commands_clears)

lemma stop_session_idempotent: "stop_session u (stop_session u s) = stop_session u s"
proof -
  have "stop_session u (stop_session u s) = cancel_user_commands u (stop_session u s)"
    by (rule stop_session_no_session) (rule stop_session_clears)
  also have "\<dots> = stop_session u s"
    by (rule cancel_user_commands_idle) (rule stop_session_clears)+
  finally show ?thesis .
qed

lemma stop_session_teardown:
  assumes "sessions s u = Some r" and "container_id r \<noteq> []"
    and "containers s (container_id r) \<noteq> None"
  shows "docker_log (stop_session u s) = docker_log s @ [Stop (container_id r), Remove (container_id r)]"
    and "containers (stop_session u s) = (containers s)(container_id r := None)"
  using assms
  by (auto simp: stop_session_def redis_delete_session_def remove_container_of_session_def
      stop_and_remove_def cancel_user_commands_frame)

text \<open>
  C8, as amended. \<^verbatim>\<open>stop_session\<close> has no error result, and a second call in a row changes
  nothing at all: the state after two calls is the state after one, Docker's call log
  included, so the container is stopped and removed once. For a user with no session
  record the call does what \<^verbatim>\<open>cancel_user_commands\<close> does and no more: the session store,
  Docker, the token balances and the confirmed users are untouched, and when no worker,
  queue or active command is registered for the user the whole state is unchanged.
\<close>

theorem stop_session_is_idempotent:
  "stop_session u (stop_session u s) = stop_session u s \<and>
   sessions (stop_session u s) u = None \<and>
   (sessions s u = None \<longrightarrow>
      stop_session u s = cancel_user_commands u s \<and>
      sessions (stop_session u s) = sessions s \<and>
      containers (stop_session u s) = containers s \<and>
      docker_log (stop_session u s) = docker_log s \<and>
      tokens (stop_session u s) = tokens s \<and>
      confirmed_users (stop_session u s) = confirmed_users s) \<and>
   (sessions s u = None \<and> command_workers s u = None \<and> command_queues s u = None \<and>
    u \<notin> active_commands s \<longrightarrow> stop_session u s = s) \<and>
   (sessions s u = Some r \<and> container_id r \<noteq> [] \<and> containers s (container_id r) \<noteq> None \<longrightarrow>
      docker_log (stop_session u s) =
        docker_log s @ [Stop (container_id r), Remove (container_id r)] \<and>
      containers (stop_session u s) = (containers s)(container_id r := None) \<and>
      docker_log (stop_session u (stop_session u s)) =
        docker_log s @ [Stop (container_id r), Remove (container_id r)])"
proof (intro conjI impI)
  show "stop_session u (stop_session u s) = stop_session u s" by (rule stop_session_idempotent)
  show "sessions (stop_session u s) u = None" by (rule stop_session_clears)
next
  assume n: "sessions s u = None"
  then show e: "stop_session u s = cancel_user_commands u s" by (rule stop_session_no_session)
  show "sessions (stop_session u s) = sessions s" "containers (stop_session u s) = containers s"
    "docker_log (stop_session u s) = docker_log s" "tokens (stop_session u s) = tokens s"
    "confirmed_users (stop_session u s) = confirmed_users s"
    unfolding e by (simp_all add: cancel_user_commands_frame)
next
  assume "sessions s u = None \<and> command_workers s u = None \<and> command_queues s u = None \<and>
    u \<notin> active_commands s"
  then show "stop_session u s = s"
    by (simp add: stop_session_no_session cancel_user_commands_idle)
next
  assume h: "sessions s u = Some r \<and> container_id r \<noteq> [] \<and> containers s (container_id r) \<noteq> None"
  then show a: "docker_log (stop_session u s) =
      docker_log s @ [Stop (container_id r), Remove (container_id r)]"
    by (simp add: stop_session_teardown)
  from h show "containers (stop_session u s) = (containers s)(container_id r := None)"
    by (simp add: stop_session_teardown)
  from a show "docker_log (stop_session u (stop_session u s)) =
      docker_log s @ [Stop (container_id r), Remove (container_id r)]"
    by (simp add: stop_session_idempotent)
qed



lemma create_user_container_started:
  assumes "selected_config config_key test = Some cfg"
    and "case ttl of None \<Rightarrow> True | Some t \<Rightarrow> 0 \<le> t"
  shows "create_user_container u img sh ttl ttl_disp config_key net test (Started cid) s =
     (if \<not> test \<and> u \<notin> confirmed_users s
      then Inl (AttributeError ''start_token_consumption'') else Inr cid,
      created u img sh ttl ttl_disp cfg net test cid s)"
  using assms
  by (auto simp: create_user_container_def created_def Let_def is_confirmed_user_def
      remove_container_of_session_frame split: option.splits)


lemma created_fields:
  "sessions (created u img sh ttl ttl_disp cfg net test cid s) u =
     Some (session_data cid img sh ttl ttl_disp cfg net (u \<in> confirmed_users s) test)"
  "docker_log (created u img sh ttl ttl_disp cfg net test cid s) =
     docker_log (remove_container_of_session u s) @ [Run cid]"
  "containers (created u img sh ttl ttl_disp cfg net test cid s) cid =
     Some (container_kwargs u img net cfg (u \<notin> confirmed_users s \<and> \<not> test))"
  "confirmed_users (created u img sh ttl ttl_disp cfg net test cid s) = confirmed_users s"
  "tokens (created u img sh ttl ttl_disp cfg net test cid s) = tokens s"
  by (simp_all add: created_def remove_container_of_session_frame)


lemma run_Nil: "run [] s = s" by (simp add: run_def)
lemma run_Cons: "run (e # es) s = run es (step s e)" by (simp add: run_def)

lemmas eval_defs =
  execute_command_def has_active_session_def start_command_worker_def strip_def is_space_def
  create_user_container_def selected_config_def resource_configs_def container_kwargs_def
  session_data_def remove_container_of_session_def stop_and_remove_def is_confirmed_user_def
  worker_start_def worker_take_def worker_resume_def worker_idle_def launch_def
  begin_single_command_def redis_delete_session_def edit_text_def new_job_def settle_def
  wait_result_def running_jobs_def max_workers_def is_timeout_def abandon_def
  cancel_user_commands_def stop_session_def test_config_def full_command_def
  is_command_dangerous_def dangerous_patterns_def lower_def lower_char_def render_output_def

lemma orphan_state:
  "sessions (run orphan_events init_bot) 1 = None"
  "command_queues (run orphan_events init_bot) 1 = Some []"
  "command_workers (run orphan_events init_bot) 1 = Some Waiting"
  "chat (run orphan_events init_bot) =
     [(1, (0, ''ls''), InQueue 1), (1, (0, ''ls''), Sent (Output ''bin'') 0),
      (1, (1, ''pwd''), InQueue 1), (1, (1, ''pwd''), ContainerNotFound)]"
  by (simp_all add: orphan_events_def run_Cons run_Nil init_bot_def eval_defs Let_def)

text \<open>
  C8 as stated fails: after the run \<open>orphan_events\<close> user 1 has no session record, and
  \<^verbatim>\<open>stop_session\<close> still changes the state: it cancels the worker that waits for commands
  and unregisters it and the queue.
\<close>

theorem stop_session_not_noop:
  "sessions (run orphan_events init_bot) 1 = None \<and>
   command_workers (run orphan_events init_bot) 1 = Some Waiting \<and>
   command_queues (run orphan_events init_bot) 1 = Some [] \<and>
   command_workers (stop_session 1 (run orphan_events init_bot)) 1 = None \<and>
   command_queues (stop_session 1 (run orphan_events init_bot)) 1 = None \<and>
   stop_session 1 (run orphan_events init_bot) \<noteq> run orphan_events init_bot"
proof -
  have a: "command_workers (stop_session 1 (run orphan_events init_bot)) 1 = None"
    and b: "command_queues (stop_session 1 (run orphan_events init_bot)) 1 = None"
    by (rule stop_session_clears)+
  from a have "command_workers (stop_session 1 (run orphan_events init_bot)) 1 \<noteq>
     command_workers (run orphan_events init_bot) 1"
    by (simp add: orphan_state)
  then have "stop_session 1 (run orphan_events init_bot) \<noteq> run orphan_events init_bot"
    by auto
  with a b show ?thesis by (simp add: orphan_state)
qed

text \<open>
  C1 (what the code does). For an unconfirmed user and an ordinary session
  \<^verbatim>\<open>create_user_container\<close> starts the container, stores the session and then raises
  \<^verbatim>\<open>AttributeError\<close> at the call of \<^verbatim>\<open>start_token_consumption\<close>: no billing task is
  started, and the token balances are as before.
\<close>

theorem billing_task_never_started:
  "selected_config config_key False = Some cfg \<and>
   (case ttl of None \<Rightarrow> True | Some t \<Rightarrow> 0 \<le> t) \<and> u \<notin> confirmed_users s \<longrightarrow>
     create_user_container u img sh ttl ttl_disp config_key net False (Started cid) s =
       (Inl (AttributeError ''start_token_consumption''),
        created u img sh ttl ttl_disp cfg net False cid s) \<and>
     sessions (created u img sh ttl ttl_disp cfg net False cid s) u =
       Some (session_data cid img sh ttl ttl_disp cfg net False False) \<and>
     containers (created u img sh ttl ttl_disp cfg net False cid s) cid =
       Some (container_kwargs u img net cfg True) \<and>
     tokens (created u img sh ttl ttl_disp cfg net False cid s) = tokens s"
  by (simp add: create_user_container_started created_fields)

lemma selected_minimal: "selected_config ''minimal'' False = Some minimal_config"
  by (simp add: selected_config_def resource_configs_def minimal_config_def)

theorem billing_task_never_started_witness:
  "selected_config ''minimal'' False = Some minimal_config \<and>
   (2::int) \<notin> confirmed_users (init_user_tokens 2 init_bot) \<and>
   fst (create_user_container 2 ''ubuntu:latest'' ''bash'' (Some 1800) ''30m'' ''minimal'' True
          False (Started ''c9'') (init_user_tokens 2 init_bot)) =
     Inl (AttributeError ''start_token_consumption'') \<and>
   get_user_tokens 2 (snd (create_user_container 2 ''ubuntu:latest'' ''bash'' (Some 1800) ''30m''
          ''minimal'' True False (Started ''c9'') (init_user_tokens 2 init_bot))) = 480 \<and>
   has_active_session 2 (snd (create_user_container 2 ''ubuntu:latest'' ''bash'' (Some 1800)
          ''30m'' ''minimal'' True False (Started ''c9'') (init_user_tokens 2 init_bot)))"
proof -
  let ?s = "init_user_tokens 2 init_bot"
  have u: "(2::int) \<notin> confirmed_users ?s"
    by (simp add: init_user_tokens_def init_bot_def)
  have t: "case Some (1800::int) of None \<Rightarrow> True | Some t \<Rightarrow> 0 \<le> t" by simp
  have b: "get_user_tokens 2 ?s = 480"
    by (simp add: init_user_tokens_def init_bot_def get_user_tokens_def initial_tokens_def)
  from billing_task_never_started [where config_key = "''minimal''" and cfg = minimal_config
      and ttl = "Some 1800" and u = 2 and s = ?s and img = "''ubuntu:latest''"
      and sh = "''bash''" and ttl_disp = "''30m''" and net = True and cid = "''c9''"]
    selected_minimal u t
  show ?thesis using b by (simp add: get_user_tokens_def has_active_session_def selected_minimal)
qed




theorem stop_session_is_idempotent_witness:
  "sessions shell_demo 2 = Some (demo_session ''c2'' False False) \<and>
   container_id (demo_session ''c2'' False False) \<noteq> [] \<and>
   containers shell_demo ''c2'' \<noteq> None \<and>
   docker_log (stop_session 2 shell_demo) = [Stop ''c2'', Remove ''c2''] \<and>
   docker_log (stop_session 2 (stop_session 2 shell_demo)) = [Stop ''c2'', Remove ''c2''] \<and>
   stop_session 2 (stop_session 2 shell_demo) = stop_session 2 shell_demo \<and>
   sessions shell_demo 5 = None \<and> command_workers shell_demo 5 = None \<and>
   command_queues shell_demo 5 = None \<and> (5::int) \<notin> active_commands shell_demo \<and>
   stop_session 5 shell_demo = shell_demo"
proof -
  have s: "sessions shell_demo 2 = Some (demo_session ''c2'' False False)"
    "container_id (demo_session ''c2'' False False) \<noteq> []"
    "containers shell_demo (container_id (demo_session ''c2'' False False)) \<noteq> None"
    "containers shell_demo ''c2'' \<noteq> None"
    "docker_log shell_demo = []"
    by (simp_all add: shell_demo_def init_bot_def demo_session_def)
  have n: "sessions shell_demo 5 = None" "command_workers shell_demo 5 = None"
    "command_queues shell_demo 5 = None" "(5::int) \<notin> active_commands shell_demo"
    by (simp_all add: shell_demo_def init_bot_def)
  from stop_session_is_idempotent [where u = 2 and s = shell_demo
      and r = "demo_session ''c2'' False False"] s
  have a: "docker_log (stop_session 2 shell_demo) = [Stop ''c2'', Remove ''c2''] \<and>
   docker_log (stop_session 2 (stop_session 2 shell_demo)) = [Stop ''c2'', Remove ''c2''] \<and>
   stop_session 2 (stop_session 2 shell_demo) = stop_session 2 shell_demo"
    by (simp add: demo_session_def)
  from stop_session_is_idempotent [where u = 5 and s = shell_demo] n
  have b: "stop_session 5 shell_demo = shell_demo" by blast
  show ?thesis using s n a b by simp
qed

section \<open>The command queue and its worker: proofs\<close>


lemma queue_of_simps: "queue_of None = []" "queue_of (Some q) = q"
  by (simp_all add: queue_of_def)





lemma chat_append:
  assumes "chat s' = chat s @ [(u, e, n)]"
  shows "answered_of v s' = answered_of v s @ (if v = u \<and> \<not> is_queued n then [e] else [])"
    and "queued_of v s' = queued_of v s @ (if v = u \<and> is_queued n then [e] else [])"
  using assms by (auto simp: answered_of_def queued_of_def)

lemma stop_session_fields:
  "chat (stop_session u s) = chat s"
  "command_queues (stop_session u s) = (command_queues s)(u := None)"
  "command_workers (stop_session u s) = (command_workers s)(u := None)"
  "thread_pool (stop_session u s) = thread_pool (cancel_user_commands u s)"
  "next_job (stop_session u s) = next_job s"
  "next_msg (stop_session u s) = next_msg s"
  by (simp_all add: stop_session_def redis_delete_session_def remove_container_of_session_frame
      cancel_user_commands_frame cancel_user_commands_clears)


lemma create_user_container_fields:
  "chat (snd (create_user_container u img sh ttl d k n t dr s)) = chat s"
  "command_queues (snd (create_user_container u img sh ttl d k n t dr s)) = command_queues s"
  "command_workers (snd (create_user_container u img sh ttl d k n t dr s)) = command_workers s"
  "thread_pool (snd (create_user_container u img sh ttl d k n t dr s)) = thread_pool s"
  "next_job (snd (create_user_container u img sh ttl d k n t dr s)) = next_job s"
  "next_msg (snd (create_user_container u img sh ttl d k n t dr s)) = next_msg s"
  by (simp_all add: create_user_container_def Let_def remove_container_of_session_frame
      split: option.splits run_reply.splits)






lemma job_end_fields:
  "chat (job_end i s) = chat s"
  "command_queues (job_end i s) = command_queues s"
  "command_workers (job_end i s) = command_workers s"
  "next_job (job_end i s) = next_job s"
  "next_msg (job_end i s) = next_msg s"
  by (simp_all add: job_end_def)



lemma execute_command_rejected:
  "\<not> has_active_session u s \<Longrightarrow> execute_command u text s = (None, s)"
  by (simp add: execute_command_def)

lemma execute_command_accepted:
  assumes "has_active_session u s"
  shows "chat (snd (execute_command u text s)) =
           chat s @ [(u, (next_msg s, strip text),
                      InQueue (Suc (length (queue_of (command_queues s u)))))]"
    and "queue_of (command_queues (snd (execute_command u text s)) v) =
           queue_of (command_queues s v) @ (if v = u then [(next_msg s, strip text)] else [])"
    and "next_msg (snd (execute_command u text s)) = Suc (next_msg s)"
    and "command_workers (snd (execute_command u text s)) =
           (if command_workers s u = None then (command_workers s)(u \<mapsto> Created)
            else command_workers s)"
    and "command_queues (snd (execute_command u text s)) u =
           Some (queue_of (command_queues s u) @ [(next_msg s, strip text)])"
  using assms
  by (auto simp: execute_command_def Let_def start_command_worker_def queue_of_def
      split: option.splits)


lemma begin_single_command_cases:
  "(\<exists>n. fst (begin_single_command u c s) = Inl n \<and> \<not> is_queued n \<and> \<not> is_timeout n) \<or>
   (\<exists>l. fst (begin_single_command u c s) = Inr l)"
  by (simp add: begin_single_command_def is_queued_def is_timeout_def split: option.splits)

lemma begin_single_command_fields:
  "chat (snd (begin_single_command u c s)) = chat s"
  "command_queues (snd (begin_single_command u c s)) = command_queues s"
  "command_workers (snd (begin_single_command u c s)) = command_workers s"
  "thread_pool (snd (begin_single_command u c s)) = thread_pool s"
  "next_job (snd (begin_single_command u c s)) = next_job s"
  "next_msg (snd (begin_single_command u c s)) = next_msg s"
  by (simp_all add: begin_single_command_def redis_delete_session_def split: option.splits)

lemma launch_None:
  assumes "launch u e rp s = (None, s1)"
  shows "\<exists>n. \<not> is_queued n \<and> chat s1 = chat s @ [(u, e, n)]"
    and "command_queues s1 = command_queues s" and "command_workers s1 = command_workers s"
    and "thread_pool s1 = thread_pool s" and "next_job s1 = next_job s"
    and "next_msg s1 = next_msg s"
proof -
  obtain x s0 where b: "begin_single_command u (snd e) s = (x, s0)"
    by (cases "begin_single_command u (snd e) s")
  with assms obtain n where n: "x = Inl n" and s1: "s1 = edit_text u e n s0"
    by (cases x) (auto simp: launch_def)
  from begin_single_command_cases [of u "snd e" s] b n have nq: "\<not> is_queued n" by simp
  from begin_single_command_fields [of u "snd e" s] b
  have f: "chat s0 = chat s" "command_queues s0 = command_queues s"
    "command_workers s0 = command_workers s" "thread_pool s0 = thread_pool s"
    "next_job s0 = next_job s" "next_msg s0 = next_msg s" by simp_all
  show "\<exists>n. \<not> is_queued n \<and> chat s1 = chat s @ [(u, e, n)]"
    using nq s1 f by (auto simp: edit_text_def)
  show "command_queues s1 = command_queues s" "command_workers s1 = command_workers s"
    "thread_pool s1 = thread_pool s" "next_job s1 = next_job s" "next_msg s1 = next_msg s"
    using s1 f by (simp_all add: edit_text_def)
qed

lemma launch_Some:
  assumes "launch u e rp s = (Some j, s1)"
  shows "chat s1 = chat s" and "command_queues s1 = command_queues s"
    and "command_workers s1 = command_workers s"
    and "thread_pool s1 = thread_pool s @ [j]" and "next_job s1 = Suc (next_job s)"
    and "next_msg s1 = next_msg s"
    and "j_id j = next_job s" and "j_user j = u" and "j_entry j = e" and "\<not> j_abandoned j"
proof -
  obtain x s0 where b: "begin_single_command u (snd e) s = (x, s0)"
    by (cases "begin_single_command u (snd e) s")
  with assms obtain l where l: "x = Inr l" and j: "j = new_job u e l rp s0"
    and s1: "s1 = s0\<lparr>thread_pool := thread_pool s0 @ [j], next_job := Suc (next_job s0)\<rparr>"
    by (cases x) (auto simp: launch_def)
  from begin_single_command_fields [of u "snd e" s] b
  have f: "chat s0 = chat s" "command_queues s0 = command_queues s"
    "command_workers s0 = command_workers s" "thread_pool s0 = thread_pool s"
    "next_job s0 = next_job s" "next_msg s0 = next_msg s" by simp_all
  show "chat s1 = chat s" "command_queues s1 = command_queues s"
    "command_workers s1 = command_workers s" "thread_pool s1 = thread_pool s @ [j]"
    "next_job s1 = Suc (next_job s)" "next_msg s1 = next_msg s"
    using s1 f by simp_all
  show "j_id j = next_job s" "j_user j = u" "j_entry j = e" "\<not> j_abandoned j"
    using j f by (simp_all add: new_job_def split: prod.splits)
qed

lemma settle_Some:
  assumes "settle u j s = Some s1"
  shows "\<exists>n. \<not> is_queued n \<and> chat s1 = chat s @ [(u, j_entry j, n)]"
    and "command_queues s1 = command_queues s" and "command_workers s1 = command_workers s"
    and "next_job s1 = next_job s" and "next_msg s1 = next_msg s"
    and "thread_pool s1 = abandon (j_id j) (thread_pool s) \<or>
         thread_pool s1 = filter (\<lambda>k. j_id k \<noteq> j_id j) (thread_pool s)"
proof -
  let ?w = "wait_result (j_test j)
      (if list_ex (\<lambda>k. j_id k = j_id j) (running_jobs s) then j_reply j else NoReply)"
  from assms obtain n where w: "?w = Some n"
    and s1: "s1 = edit_text u (j_entry j) n
       (s\<lparr>thread_pool := (if is_timeout n then abandon (j_id j) (thread_pool s)
                            else filter (\<lambda>k. j_id k \<noteq> j_id j) (thread_pool s))\<rparr>)"
    by (cases ?w) (auto simp: settle_def)
  have "\<not> is_queued n" using w
    by (auto simp: wait_result_def is_queued_def split: reply.splits if_splits)
  then show "\<exists>n. \<not> is_queued n \<and> chat s1 = chat s @ [(u, j_entry j, n)]"
    using s1 by (auto simp: edit_text_def)
  show "command_queues s1 = command_queues s" "command_workers s1 = command_workers s"
    "next_job s1 = next_job s" "next_msg s1 = next_msg s"
    using s1 by (simp_all add: edit_text_def)
  show "thread_pool s1 = abandon (j_id j) (thread_pool s) \<or>
         thread_pool s1 = filter (\<lambda>k. j_id k \<noteq> j_id j) (thread_pool s)"
    using s1 by (simp add: edit_text_def)
qed







































lemma worker_take_other:
  assumes "u \<noteq> v \<or> command_workers s u = Some Finished"
  shows "command_workers (worker_take v rp s) u = command_workers s u"
    and "command_queues (worker_take v rp s) u = command_queues s u"
    and "answered_of u (worker_take v rp s) = answered_of u s"
proof -
  have "command_workers (worker_take v rp s) u = command_workers s u \<and>
        command_queues (worker_take v rp s) u = command_queues s u \<and>
        answered_of u (worker_take v rp s) = answered_of u s"
  proof (cases "command_workers s v = Some Waiting \<and> (\<exists>e rest. command_queues s v = Some (e # rest))")
    case False
    then have "worker_take v rp s = s"
      by (auto simp: worker_take_def split: option.splits task.splits list.splits)
    then show ?thesis by simp
  next
    case True
    then obtain e rest where w: "command_workers s v = Some Waiting"
      and q: "command_queues s v = Some (e # rest)" by blast
    with assms have ne: "u \<noteq> v" by auto
    let ?s0 = "s\<lparr>command_queues := (command_queues s)(v \<mapsto> rest)\<rparr>"
    obtain r s1 where l: "launch v e rp ?s0 = (r, s1)" by (cases "launch v e rp ?s0")
    show ?thesis
    proof (cases r)
      case None
      with l w q have t: "worker_take v rp s = s1" by (simp add: worker_take_def)
      from launch_None [OF l [unfolded None]] obtain n where
        c: "chat s1 = chat s @ [(v, e, n)]"
        and f: "command_queues s1 = (command_queues s)(v \<mapsto> rest)"
          "command_workers s1 = command_workers s"
        by auto
      show ?thesis unfolding t using chat_append(1) [OF c, of u] f ne by simp
    next
      case (Some j)
      with l w q have t: "worker_take v rp s = s1\<lparr>command_workers := (command_workers s1)(v \<mapsto> Busy j)\<rparr>"
        by (simp add: worker_take_def)
      note f = launch_Some [OF l [unfolded Some]]
      show ?thesis unfolding t using f(1,2,3) ne by (simp add: answered_of_def)
    qed
  qed
  then show "command_workers (worker_take v rp s) u = command_workers s u"
    and "command_queues (worker_take v rp s) u = command_queues s u"
    and "answered_of u (worker_take v rp s) = answered_of u s" by simp_all
qed

lemma worker_resume_other:
  assumes "u \<noteq> v \<or> command_workers s u = Some Finished"
  shows "command_workers (worker_resume v s) u = command_workers s u"
    and "command_queues (worker_resume v s) u = command_queues s u"
    and "answered_of u (worker_resume v s) = answered_of u s"
proof -
  have "command_workers (worker_resume v s) u = command_workers s u \<and>
        command_queues (worker_resume v s) u = command_queues s u \<and>
        answered_of u (worker_resume v s) = answered_of u s"
  proof (cases "\<exists>j s1. command_workers s v = Some (Busy j) \<and> settle v j s = Some s1")
    case False
    then have "worker_resume v s = s"
      by (auto simp: worker_resume_def split: option.splits task.splits)
    then show ?thesis by simp
  next
    case True
    then obtain j s1 where w: "command_workers s v = Some (Busy j)"
      and st: "settle v j s = Some s1" by blast
    with assms have ne: "u \<noteq> v" by auto
    from w st have t: "worker_resume v s = s1\<lparr>command_workers := (command_workers s1)(v \<mapsto> Waiting)\<rparr>"
      by (simp add: worker_resume_def)
    from settle_Some [OF st] obtain n where
      c: "chat s1 = chat s @ [(v, j_entry j, n)]"
      and f: "command_queues s1 = command_queues s" "command_workers s1 = command_workers s"
      by auto
    have c': "chat (worker_resume v s) = chat s @ [(v, j_entry j, n)]" unfolding t using c by simp
    show ?thesis using chat_append(1) [OF c', of u] ne f by (simp add: t)
  qed
  then show "command_workers (worker_resume v s) u = command_workers s u"
    and "command_queues (worker_resume v s) u = command_queues s u"
    and "answered_of u (worker_resume v s) = answered_of u s" by simp_all
qed

lemma stuck_fields:
  assumes "command_workers s u = Some Finished"
    and "command_workers s' u = command_workers s u"
    and "command_queues s' u = command_queues s u"
    and "answered_of u s' = answered_of u s"
  shows "stuck u s s'"
  using assms by (simp add: stuck_def)

lemma execute_command_stuck:
  assumes "command_workers s u = Some Finished"
  shows "stuck u s (snd (execute_command v x s))"
proof (cases "has_active_session v s")
  case False
  with assms show ?thesis by (simp add: execute_command_rejected stuck_def)
next
  case True
  note acc = execute_command_accepted [OF True, of x]
  have "command_workers (snd (execute_command v x s)) u = Some Finished"
    using assms by (auto simp: acc(4))
  moreover have "answered_of u (snd (execute_command v x s)) = answered_of u s"
    using chat_append(1) [OF acc(1), of u] by (simp add: is_queued_def)
  moreover have "prefix (queue_of (command_queues s u))
      (queue_of (command_queues (snd (execute_command v x s)) u))"
    by (simp add: acc(2))
  ultimately show ?thesis by (simp add: stuck_def)
qed

lemma step_stuck:
  assumes f: "command_workers s u = Some Finished" and nc: "\<not> cancels u ev"
  shows "stuck u s (step s ev)"
proof (cases ev)
  case (Submit v x)
  then show ?thesis using f by (simp add: execute_command_stuck)
next
  case (Cancel v)
  with nc have "v \<noteq> u" by (auto simp: cancels_def)
  then show ?thesis unfolding Cancel step.simps
    by (intro stuck_fields [OF f])
       (simp_all add: cancel_user_commands_clears cancel_user_commands_frame answered_of_def)
next
  case (StopSession v)
  with nc have "v \<noteq> u" by (auto simp: cancels_def)
  then show ?thesis unfolding StopSession step.simps
    by (intro stuck_fields [OF f]) (simp_all add: stop_session_fields answered_of_def)
next
  case (Create v img sh ttl d k n t dr)
  show ?thesis unfolding Create step.simps
    by (intro stuck_fields [OF f]) (simp_all add: create_user_container_fields answered_of_def)
next
  case (WorkerStart v)
  show ?thesis unfolding WorkerStart step.simps
    by (intro stuck_fields [OF f])
       (use f in \<open>auto simp: worker_start_def answered_of_def split: option.splits task.splits\<close>)
next
  case (WorkerTake v rp)
  show ?thesis unfolding WorkerTake step.simps
    by (intro stuck_fields [OF f]) (use f in \<open>simp_all add: worker_take_other\<close>)
next
  case (WorkerResume v)
  show ?thesis unfolding WorkerResume step.simps
    by (intro stuck_fields [OF f]) (use f in \<open>simp_all add: worker_resume_other\<close>)
next
  case (WorkerIdle v)
  show ?thesis unfolding WorkerIdle step.simps
    by (intro stuck_fields [OF f])
       (use f in \<open>auto simp: worker_idle_def answered_of_def
          split: option.splits task.splits list.splits\<close>)
next
  case (JobEnd i)
  show ?thesis unfolding JobEnd step.simps
    by (intro stuck_fields [OF f]) (simp_all add: job_end_fields answered_of_def)
qed

lemma run_stuck:
  assumes "command_workers s u = Some Finished" and "list_all (\<lambda>ev. \<not> cancels u ev) evs"
  shows "stuck u s (run evs s)"
  using assms
proof (induction evs arbitrary: s)
  case Nil
  then show ?case by (simp add: run_Nil stuck_def)
next
  case (Cons ev evs)
  from Cons.prems have a: "stuck u s (step s ev)" by (auto intro: step_stuck)
  then have "command_workers (step s ev) u = Some Finished" by (simp add: stuck_def)
  moreover from Cons.prems have "list_all (\<lambda>ev. \<not> cancels u ev) evs" by simp
  ultimately have b: "stuck u (step s ev) (run evs (step s ev))" by (rule Cons.IH)
  from a b show ?case unfolding run_Cons by (auto simp: stuck_def)
qed

text \<open>
  C2 (what the code does). When \<^verbatim>\<open>queue.get()\<close> times out on the empty queue the worker
  ends, but it stays in \<^verbatim>\<open>command_workers\<close> and the queue stays in \<^verbatim>\<open>command_queues\<close>.
  The next \<^verbatim>\<open>execute_command\<close> of the user therefore starts no worker: the command is put
  into the old queue, and whatever happens afterwards, short of a cancellation or a session
  stop for this user, the worker remains finished, the command remains queued and no
  further command of the user is answered.
\<close>

theorem idle_worker_stays_registered:
  "command_workers s u = Some Waiting \<and> command_queues s u = Some [] \<and>
   has_active_session u s \<and> list_all (\<lambda>ev. \<not> cancels u ev) evs \<longrightarrow>
     (let s1 = worker_idle u s;
          s2 = snd (execute_command u x s1);
          s3 = run evs s2
      in command_workers s1 u = Some Finished \<and> command_queues s1 u = Some [] \<and>
         command_workers s2 u = Some Finished \<and>
         command_queues s2 u = Some [(next_msg s, strip x)] \<and>
         command_workers s3 u = Some Finished \<and>
         answered_of u s3 = answered_of u s \<and>
         prefix [(next_msg s, strip x)] (queue_of (command_queues s3 u)))"
proof (intro impI, elim conjE)
  assume w: "command_workers s u = Some Waiting" and q: "command_queues s u = Some []"
    and h: "has_active_session u s" and nc: "list_all (\<lambda>ev. \<not> cancels u ev) evs"
  let ?s1 = "worker_idle u s"
  let ?s2 = "snd (execute_command u x ?s1)"
  let ?s3 = "run evs ?s2"
  have s1: "?s1 = s\<lparr>command_workers := (command_workers s)(u \<mapsto> Finished)\<rparr>"
    using w q by (simp add: worker_idle_def)
  have w1: "command_workers ?s1 u = Some Finished" and q1: "command_queues ?s1 u = Some []"
    and a1: "answered_of u ?s1 = answered_of u s" and n1: "next_msg ?s1 = next_msg s"
    using q by (simp_all add: s1 answered_of_def)
  have h1: "has_active_session u ?s1" using h by (simp add: s1 has_active_session_def)
  note acc = execute_command_accepted [OF h1, of x]
  have w2: "command_workers ?s2 u = Some Finished" using w1 by (simp add: acc(4))
  have q2: "command_queues ?s2 u = Some [(next_msg s, strip x)]"
    using q1 n1 by (simp add: acc(5) queue_of_simps)
  have a2: "answered_of u ?s2 = answered_of u s"
    using chat_append(1) [OF acc(1), of u] a1 by (simp add: is_queued_def)
  from run_stuck [OF w2 nc] q2 a2
  have "command_workers ?s3 u = Some Finished" "answered_of u ?s3 = answered_of u s"
    "prefix [(next_msg s, strip x)] (queue_of (command_queues ?s3 u))"
    by (simp_all add: stuck_def queue_of_simps)
  with w1 q1 w2 q2 show "let s1 = worker_idle u s; s2 = snd (execute_command u x s1);
      s3 = run evs s2
      in command_workers s1 u = Some Finished \<and> command_queues s1 u = Some [] \<and>
         command_workers s2 u = Some Finished \<and>
         command_queues s2 u = Some [(next_msg s, strip x)] \<and>
         command_workers s3 u = Some Finished \<and>
         answered_of u s3 = answered_of u s \<and>
         prefix [(next_msg s, strip x)] (queue_of (command_queues s3 u))"
    by (simp add: Let_def)
qed












lemmas eval_more = eval_defs answered_of_def queued_of_def pending_of_def held_by_def
  queue_of_def is_queued_def running_of_def awaited_jobs_def cancels_def





lemma idle_events_state:
  "command_workers (run idle_events init_bot) 1 = Some Waiting"
  "command_queues (run idle_events init_bot) 1 = Some []"
  "has_active_session 1 (run idle_events init_bot)"
  "answered_of 1 (run idle_events init_bot) = [(0, ''ls'')]"
  "next_msg (run idle_events init_bot) = 1"
  by (simp_all add: idle_events_def run_Cons run_Nil init_bot_def eval_more Let_def)

theorem idle_worker_stays_registered_witness:
  "command_workers (run idle_events init_bot) 1 = Some Waiting \<and>
   command_queues (run idle_events init_bot) 1 = Some [] \<and>
   has_active_session 1 (run idle_events init_bot) \<and>
   list_all (\<lambda>ev. \<not> cancels 1 ev)
     [WorkerStart 1, WorkerTake 1 (Reply 1 ''/root'' 0), WorkerResume 1, WorkerIdle 1] \<and>
   command_workers (worker_idle 1 (run idle_events init_bot)) 1 = Some Finished \<and>
   command_queues (worker_idle 1 (run idle_events init_bot)) 1 = Some [] \<and>
   command_workers
     (run [WorkerStart 1, WorkerTake 1 (Reply 1 ''/root'' 0), WorkerResume 1, WorkerIdle 1]
        (snd (execute_command 1 ''pwd'' (worker_idle 1 (run idle_events init_bot))))) 1 =
     Some Finished \<and>
   answered_of 1
     (run [WorkerStart 1, WorkerTake 1 (Reply 1 ''/root'' 0), WorkerResume 1, WorkerIdle 1]
        (snd (execute_command 1 ''pwd'' (worker_idle 1 (run idle_events init_bot))))) =
     [(0, ''ls'')] \<and>
   prefix [(1, ''pwd'')]
     (queue_of (command_queues
        (run [WorkerStart 1, WorkerTake 1 (Reply 1 ''/root'' 0), WorkerResume 1, WorkerIdle 1]
           (snd (execute_command 1 ''pwd'' (worker_idle 1 (run idle_events init_bot))))) 1))"
proof -
  let ?evs = "[WorkerStart 1, WorkerTake 1 (Reply 1 ''/root'' 0), WorkerResume 1, WorkerIdle 1]"
  have q: "list_all (\<lambda>ev. \<not> cancels 1 ev) ?evs" by (simp add: cancels_def)
  have sp: "strip ''pwd'' = ''pwd''" by (simp add: strip_def is_space_def)
  note st = idle_events_state
  from idle_worker_stays_registered [where s = "run idle_events init_bot" and u = 1
      and evs = ?evs and x = "''pwd''"] q st(1,2,3)
  show ?thesis unfolding Let_def st(4,5) sp by simp
qed

end
